theory Spec2Isabelle
  imports Main "HOL-Library.Sublist" "HOL-Library.AList"
begin

section \<open>Python values used by the scraper\<close>

text \<open>
  A Python \<open>str\<close> is modelled as a \<open>string\<close>: a list of characters with code points
  below 256. Exceptions are values of \<open>py_error\<close>; a computation that may raise returns
  \<open>py_error + 'a\<close> with \<open>Inl\<close> for the exception.
\<close>

datatype py_error =
  KeyError | AttributeError | ValueError | IndexError | TypeError | StopIteration
  | UnicodeDecodeError | UnicodeEncodeError | HTTPError

text \<open>\<open>str.count('v')\<close>: the number of occurrences of the one-character string.\<close>

definition count_v :: "string \<Rightarrow> nat" where
  "count_v s = count_list s (CHR ''v'')"

text \<open>
  \<open>str.replace(old, new)\<close>: every non-overlapping occurrence of \<open>old\<close>, found from the
  left, is replaced. The program only calls it with a non-empty \<open>old\<close>; with an empty
  one Python puts \<open>new\<close> before every character and at the end.
\<close>

function replace :: "string \<Rightarrow> string \<Rightarrow> string \<Rightarrow> string" where
  "replace old new [] = (if old = [] then new else [])"
| "replace old new (c # cs) =
     (if old = [] then new @ c # replace old new cs
      else if prefix old (c # cs) then new @ replace old new (drop (length old) (c # cs))
      else c # replace old new cs)"
  by pat_completeness auto
termination
  by (relation "measure (\<lambda>(old, new, s). length s)") (auto simp: prefix_def)

declare replace.simps [simp del]

text \<open>\<open>str.split(' ')\<close>: split at every single space, keeping empty pieces.\<close>

fun split_space :: "string \<Rightarrow> string list" where
  "split_space [] = [[]]"
| "split_space (c # cs) =
     (if c = CHR '' '' then [] # split_space cs
      else (case split_space cs of [] \<Rightarrow> [[c]] | g # gs \<Rightarrow> (c # g) # gs))"

text \<open>
  \<open>str.strip()\<close> removes white space at both ends. Below code point 256 Python's white
  space is: tab, line feed, vertical tab, form feed, carriage return, the separators
  28 to 31, space, next line (133) and no-break space (160).
\<close>

definition is_space :: "char \<Rightarrow> bool" where
  "is_space c = ((of_char c :: nat) \<in> {9, 10, 11, 12, 13, 28, 29, 30, 31, 32, 133, 160})"

definition strip :: "string \<Rightarrow> string" where
  "strip s = rev (dropWhile is_space (rev (dropWhile is_space s)))"

text \<open>
  \<open>int(s)\<close> on a string: white space at both ends is dropped, then an optional sign,
  then decimal digits, where a single underscore may stand between two digits.
  Anything else raises \<open>ValueError\<close>. The white space \<open>int\<close> drops is not that of
  \<open>str.strip\<close>: the separators 28 to 31 stay and make the call raise. Below code point
  256 the only decimal digits are \<open>0\<close> to \<open>9\<close>. A string with more digits than the
  interpreter's limit, 4300 unless it is configured otherwise, raises \<open>ValueError\<close> too.
\<close>

definition is_int_space :: "char \<Rightarrow> bool" where
  "is_int_space c = ((of_char c :: nat) \<in> {9, 10, 11, 12, 13, 32, 133, 160})"

definition int_strip :: "string \<Rightarrow> string" where
  "int_strip s = rev (dropWhile is_int_space (rev (dropWhile is_int_space s)))"

definition is_digit :: "char \<Rightarrow> bool" where
  "is_digit c = (48 \<le> (of_char c :: nat) \<and> (of_char c :: nat) \<le> 57)"

definition digit_val :: "char \<Rightarrow> nat" where
  "digit_val c = of_char c - 48"

definition int_max_str_digits :: nat where
  "int_max_str_digits = 4300"

fun int_digits :: "nat \<Rightarrow> string \<Rightarrow> nat option" where
  "int_digits acc [] = Some acc"
| "int_digits acc [c] = (if is_digit c then Some (10 * acc + digit_val c) else None)"
| "int_digits acc (c # d # cs) =
     (if is_digit c then int_digits (10 * acc + digit_val c) (d # cs)
      else if c = CHR ''_'' \<and> is_digit d then int_digits (10 * acc + digit_val d) cs
      else None)"

definition int_unsigned :: "string \<Rightarrow> nat option" where
  "int_unsigned s =
     (if length (filter is_digit s) > int_max_str_digits then None
      else case s of [] \<Rightarrow> None
           | c # cs \<Rightarrow> if is_digit c then int_digits (digit_val c) cs else None)"

definition py_int :: "string \<Rightarrow> py_error + int" where
  "py_int s =
     (let t = int_strip s;
          r = (case t of [] \<Rightarrow> None
               | c # cs \<Rightarrow>
                   if c = CHR ''+'' then map_option int (int_unsigned cs)
                   else if c = CHR ''-'' then map_option (\<lambda>n. - int n) (int_unsigned cs)
                   else map_option int (int_unsigned t))
      in case r of None \<Rightarrow> Inl ValueError | Some n \<Rightarrow> Inr n)"

section \<open>The parsed chapter fragment\<close>

text \<open>
  An element of the tree that \<open>html.fromstring\<close> returns: its tag, its \<open>class\<close>
  attribute (\<open>attrib['class']\<close> raises \<open>KeyError\<close> when there is none), its \<open>text\<close>
  (\<open>None\<close> when the element has no leading text) and its children in document order.
\<close>

datatype elem =
  Elem (elem_tag: string) (elem_class: "string option") (elem_text: "string option")
       (elem_children: "elem list")

text \<open>
  \<open>etree.xpath('//span/span[@class="content"]')\<close>: every \<open>span\<close> whose class attribute is
  exactly \<open>content\<close> and whose parent is a \<open>span\<close>, in document order. Each selected
  element comes with its ancestors, nearest first, which is what \<open>getparent()\<close> walks.
\<close>

fun content_spans :: "elem list \<Rightarrow> elem \<Rightarrow> (elem \<times> elem list) list" where
  "content_spans up (Elem t c x ch) =
     (if t = ''span'' \<and> c = Some ''content'' \<and>
         (case up of [] \<Rightarrow> False | p # _ \<Rightarrow> elem_tag p = ''span'')
      then [(Elem t c x ch, up)] else [])
     @ concat (map (content_spans (Elem t c x ch # up)) ch)"

text \<open>What \<open>print(text_tag.text, text_tag.attrib)\<close> writes: the text and the class attribute.\<close>

type_synonym printed = "string \<times> string option"

text \<open>
  \<open>findVerseParent(text_tag)\<close>, on the chain \<open>text_tag, text_tag.getparent(), ...\<close>.
  An empty chain is \<open>text_tag = None\<close> (the root's parent): \<open>None.attrib\<close> raises
  \<open>AttributeError\<close>, and so does \<open>None.text\<close> in the handler, before anything is
  printed. An element without a class attribute raises \<open>KeyError\<close>; the handler prints
  the element's text and attributes when that text is not blank, and raises
  \<open>AttributeError\<close> itself when the element has no text.
\<close>

fun findVerseParent :: "elem list \<Rightarrow> printed list \<times> (py_error + elem)" where
  "findVerseParent [] = ([], Inl AttributeError)"
| "findVerseParent (e # up) =
     (case elem_class e of
        None \<Rightarrow>
          (case elem_text e of
             None \<Rightarrow> ([], Inl AttributeError)
           | Some t \<Rightarrow> (if strip t \<noteq> [] then [(t, elem_class e)] else [], Inl KeyError))
      | Some verse_class \<Rightarrow>
          if prefix ''verse v'' verse_class then ([], Inr e) else findVerseParent up)"

text \<open>\<open>findMinVerse(verse)\<close>: \<open>min\<close> over a generator raises as soon as one \<open>int\<close> does.\<close>

fun int_all :: "string list \<Rightarrow> py_error + int list" where
  "int_all [] = Inr []"
| "int_all (x # xs) =
     (case py_int x of Inl e \<Rightarrow> Inl e
      | Inr n \<Rightarrow> (case int_all xs of Inl e \<Rightarrow> Inl e | Inr ns \<Rightarrow> Inr (n # ns)))"

definition py_min :: "int list \<Rightarrow> py_error + int" where
  "py_min ns = (case ns of [] \<Rightarrow> Inl ValueError | n # ms \<Rightarrow> Inr (fold min ms n))"

definition findMinVerse :: "string \<Rightarrow> py_error + int" where
  "findMinVerse verse =
     (let verse1 = replace ''verse '' [] verse;
          verse2 = replace ''v'' [] verse1
      in case int_all (split_space verse2) of Inl e \<Rightarrow> Inl e | Inr ns \<Rightarrow> py_min ns)"

text \<open>
  The verse number read from the class string of the element that carries it
  (\<open>if vCount>2: ... else: ...\<close> in \<open>Chapter.__init__\<close>).
\<close>

definition class_verse :: "string \<Rightarrow> py_error + int" where
  "class_verse c =
     (if count_v c > 2 then findMinVerse c else py_int (replace ''verse v'' [] c))"

text \<open>
  The element whose class carries the verse of one selected span, from the span's
  ancestors (parent first): the variable \<open>parent\<close> after the first \<open>if\<close> of the loop body.
  The parent's class is read; with fewer than two \<open>v\<close> in it the walk of
  \<open>findVerseParent\<close> starts at the parent, otherwise the parent itself is taken.
\<close>

definition verse_element :: "elem list \<Rightarrow> printed list \<times> (py_error + elem)" where
  "verse_element up =
     (case up of
        [] \<Rightarrow> ([], Inl AttributeError)
      | parent # _ \<Rightarrow>
          (case elem_class parent of
             None \<Rightarrow> ([], Inl KeyError)
           | Some pc \<Rightarrow> if count_v pc < 2 then findVerseParent up else ([], Inr parent)))"

text \<open>The verse number of the span: read from the class of that element.\<close>

definition leaf_verse :: "elem list \<Rightarrow> printed list \<times> (py_error + int)" where
  "leaf_verse up =
     (case verse_element up of
        (out, Inl e) \<Rightarrow> (out, Inl e)
      | (out, Inr q) \<Rightarrow>
          (case elem_class q of
             None \<Rightarrow> (out, Inl KeyError)
           | Some qc \<Rightarrow> (out, class_verse qc)))"

text \<open>
  The loop state: \<open>self.verses\<close>, a \<open>defaultdict(str)\<close> whose keys keep their insertion
  order, and \<open>last_verse\<close>, which starts as \<open>''\<close> (equal to no verse number).
\<close>

record loop_state =
  verses :: "(int \<times> string) list"
  last_verse :: "int option"

definition verse_text :: "(int \<times> string) list \<Rightarrow> int \<Rightarrow> string" where
  "verse_text vs n = (case map_of vs n of None \<Rightarrow> [] | Some s \<Rightarrow> s)"

definition chapter_step ::
  "loop_state \<Rightarrow> elem \<times> elem list \<Rightarrow> printed list \<times> (py_error + loop_state)" where
  "chapter_step st l =
     (case leaf_verse (snd l) of
        (out, Inl e) \<Rightarrow> (out, Inl e)
      | (out, Inr verse) \<Rightarrow>
          (case elem_text (fst l) of
             None \<Rightarrow> (out, Inl AttributeError)
           | Some t \<Rightarrow>
               (out, Inr \<lparr>verses =
                            AList.update verse
                              (verse_text (verses st) verse
                                 @ (if last_verse st = Some verse then '' '' @ strip t
                                    else strip t))
                              (verses st),
                          last_verse = Some verse\<rparr>)))"

fun chapter_loop ::
  "loop_state \<Rightarrow> (elem \<times> elem list) list \<Rightarrow> printed list \<times> (py_error + loop_state)" where
  "chapter_loop st [] = ([], Inr st)"
| "chapter_loop st (l # ls) =
     (case chapter_step st l of
        (out, Inl e) \<Rightarrow> (out, Inl e)
      | (out, Inr st') \<Rightarrow>
          (case chapter_loop st' ls of (out', r) \<Rightarrow> (out @ out', r)))"

definition init_state :: loop_state where
  "init_state = \<lparr>verses = [], last_verse = None\<rparr>"

text \<open>
  A \<open>Bible.Chapter\<close> object, and its constructor applied to the parsed fragment. The
  download, the search for the \<open>content\<close> field and the HTML parser are outside the
  model: their outcome, the root element or the exception they raise, is the argument
  \<open>page\<close>.
\<close>

record Chapter =
  ch_book :: string
  ch_chapter :: int
  ch_bible :: int
  ch_verses :: "(int \<times> string) list"

definition Chapter_init ::
  "string \<Rightarrow> int \<Rightarrow> int \<Rightarrow> py_error + elem \<Rightarrow> printed list \<times> (py_error + Chapter)" where
  "Chapter_init book chap bible_id page =
     (case page of
        Inl e \<Rightarrow> ([], Inl e)
      | Inr etree \<Rightarrow>
          (case chapter_loop init_state (content_spans [] etree) of
             (out, Inl e) \<Rightarrow> (out, Inl e)
           | (out, Inr st) \<Rightarrow>
               (out, Inr \<lparr>ch_book = book, ch_chapter = chap, ch_bible = bible_id,
                          ch_verses = verses st\<rparr>)))"


text \<open>
  The methods of a \<open>Chapter\<close>. \<open>self.verses\<close> is a \<open>defaultdict(str)\<close>: reading a key that
  is not there stores the empty string under it, at the end of the insertion order, and
  returns it. So \<open>__getitem__\<close> and \<open>get_verse\<close> return the object as well.
\<close>

definition Chapter_getitem :: "Chapter \<Rightarrow> int \<Rightarrow> string \<times> Chapter" where
  "Chapter_getitem self key =
     (case map_of (ch_verses self) key of
        Some s \<Rightarrow> (s, self)
      | None \<Rightarrow> ([], self\<lparr>ch_verses := ch_verses self @ [(key, [])]\<rparr>))"

definition Chapter_iter :: "Chapter \<Rightarrow> int list" where
  "Chapter_iter self = map fst (ch_verses self)"

definition Chapter_len :: "Chapter \<Rightarrow> nat" where
  "Chapter_len self = length (ch_verses self)"

definition get_verse :: "Chapter \<Rightarrow> int option \<Rightarrow> ((int \<times> string) list + string) \<times> Chapter" where
  "get_verse self verse =
     (case verse of
        None \<Rightarrow> (Inl (ch_verses self), self)
      | Some v \<Rightarrow> (case Chapter_getitem self v of (s, self') \<Rightarrow> (Inr s, self')))"

section \<open>Books and the version catalogue\<close>

text \<open>
  The JSON document of \<open>/api/bible/version/<id>\<close>, as far as the program reads it: for
  every book its codes and names and, for every chapter entry, the \<open>canonical\<close> flag.
\<close>

record book_entry =
  usfm :: string
  human_long :: string
  abbrev :: string
  chapters_canonical :: "bool list"

record version_data =
  local_title :: string
  local_abbreviation :: string
  publisher_name :: string
  language_iso_639_3 :: string
  copyright_short_text :: string
  data_books :: "book_entry list"

record Book =
  b_bible :: int
  b_length :: int
  b_id :: string
  b_abrev :: string
  b_name :: string

text \<open>
  The object under construction in \<open>Book.__init__\<close>: an attribute that has not been
  assigned yet is \<open>None\<close>, and reading it raises \<open>AttributeError\<close>.
\<close>

record Book_attrs =
  a_bible :: "int option"
  a_length :: "int option"
  a_id :: "string option"
  a_abrev :: "string option"
  a_name :: "string option"

definition getattr :: "'a option \<Rightarrow> py_error + 'a" where
  "getattr v = (case v of None \<Rightarrow> Inl AttributeError | Some x \<Rightarrow> Inr x)"

text \<open>\<open>next(filter(pred, xs))\<close>, where \<open>pred\<close> itself may raise.\<close>

fun next_filter :: "('a \<Rightarrow> py_error + bool) \<Rightarrow> 'a list \<Rightarrow> py_error + 'a" where
  "next_filter pred [] = Inl StopIteration"
| "next_filter pred (x # xs) =
     (case pred x of
        Inl e \<Rightarrow> Inl e
      | Inr b \<Rightarrow> if b then Inr x else next_filter pred xs)"

text \<open>
  \<open>Book.__init__(book_id, name_book, bible_id, length=None, abrev=None)\<close>, statement by
  statement. \<open>fetched\<close> is the outcome of \<open>utils.getResponse(...).json()\<close>, used only when
  \<open>length\<close> is \<open>None\<close>. The filter's lambda reads \<open>self.id\<close>, which is assigned further
  down.
\<close>

definition Book_init ::
  "py_error + version_data \<Rightarrow> string \<Rightarrow> string \<Rightarrow> int \<Rightarrow> int option \<Rightarrow> string option
     \<Rightarrow> py_error + Book" where
  "Book_init fetched book_id name_book bible_id len abrev =
     (let self0 = \<lparr>a_bible = Some bible_id, a_length = None, a_id = None, a_abrev = None,
                   a_name = None\<rparr>;
          length1 =
            (case len of
               Some n \<Rightarrow> Inr n
             | None \<Rightarrow>
                 (case fetched of
                    Inl e \<Rightarrow> Inl e
                  | Inr data \<Rightarrow>
                      (case next_filter
                              (\<lambda>i. case getattr (a_id self0) of
                                     Inl e \<Rightarrow> Inl e
                                   | Inr self_id \<Rightarrow> Inr (usfm i = self_id))
                              (data_books data) of
                         Inl e \<Rightarrow> Inl e
                       | Inr entry \<Rightarrow> Inr (int (length (chapters_canonical entry))))))
      in case length1 of
           Inl e \<Rightarrow> Inl e
         | Inr n \<Rightarrow>
             (case abrev of
                None \<Rightarrow> Inl AttributeError
              | Some a \<Rightarrow>
                  Inr \<lparr>b_bible = bible_id, b_length = n, b_id = book_id,
                       b_abrev = replace ''.'' [] a, b_name = name_book\<rparr>))"

text \<open>
  A key of \<open>Bible.__hashMap\<close>: the constructor stores USFM strings; \<open>writeFile\<close> looks a
  \<open>Book\<close> object up, which is hashable and equal to no string.
\<close>

datatype key = StrKey string | BookKey Book

record Bible =
  bible_id :: int
  bible_name :: string
  bible_abrev :: string
  bible_author :: string
  bible_lang :: string
  bible_description :: string
  books :: "Book list"
  hashMap :: "(key \<times> nat) list"

text \<open>The loop of \<open>Bible.__init__\<close> over \<open>data['books']\<close>, with \<open>idx = length books\<close>.\<close>

fun init_books ::
  "py_error + version_data \<Rightarrow> int \<Rightarrow> Book list \<Rightarrow> (key \<times> nat) list \<Rightarrow> book_entry list
     \<Rightarrow> py_error + Book list \<times> (key \<times> nat) list" where
  "init_books fetched bid bs hm [] = Inr (bs, hm)"
| "init_books fetched bid bs hm (i # rest) =
     (case Book_init fetched (usfm i) (human_long i) bid
             (Some (int (length (filter id (chapters_canonical i))))) (Some (abbrev i)) of
        Inl e \<Rightarrow> Inl e
      | Inr b \<Rightarrow>
          init_books fetched bid (bs @ [b]) (AList.update (StrKey (usfm i)) (length bs) hm) rest)"

definition Bible_init :: "py_error + version_data \<Rightarrow> int \<Rightarrow> py_error + Bible" where
  "Bible_init fetched bid =
     (case fetched of
        Inl e \<Rightarrow> Inl e
      | Inr data \<Rightarrow>
          (case init_books fetched bid [] [] (data_books data) of
             Inl e \<Rightarrow> Inl e
           | Inr (bs, hm) \<Rightarrow>
               Inr \<lparr>bible_id = bid, bible_name = local_title data,
                    bible_abrev = local_abbreviation data, bible_author = publisher_name data,
                    bible_lang = language_iso_639_3 data,
                    bible_description = copyright_short_text data,
                    books = bs, hashMap = hm\<rparr>))"

text \<open>
  \<open>get_book\<close>: \<open>self.books[self.__hashMap[book]]\<close>. The map is a \<open>defaultdict(int)\<close>: a
  missing key is stored with the value 0, which is returned. An index outside the list
  raises \<open>IndexError\<close>. \<open>__getitem__\<close> is the same call.
\<close>

definition hashMap_getitem :: "(key \<times> nat) list \<Rightarrow> key \<Rightarrow> nat \<times> (key \<times> nat) list" where
  "hashMap_getitem m k =
     (case map_of m k of Some i \<Rightarrow> (i, m) | None \<Rightarrow> (0, m @ [(k, 0)]))"

definition get_book :: "Bible \<Rightarrow> key \<Rightarrow> (py_error + Book) \<times> Bible" where
  "get_book self book =
     (case hashMap_getitem (hashMap self) book of
        (i, m) \<Rightarrow>
          (if i < length (books self) then Inr (books self ! i) else Inl IndexError,
           self\<lparr>hashMap := m\<rparr>))"

definition Bible_getitem :: "Bible \<Rightarrow> key \<Rightarrow> (py_error + Book) \<times> Bible" where
  "Bible_getitem self k = get_book self k"

definition Bible_iter :: "Bible \<Rightarrow> Book list" where
  "Bible_iter self = books self"

text \<open>A sequence of lookups, each on the object the one before left behind.\<close>

fun lookups :: "Bible \<Rightarrow> key list \<Rightarrow> Bible" where
  "lookups self [] = self"
| "lookups self (k # ks) = lookups (snd (get_book self k)) ks"

section \<open>The chapter scheduler\<close>

text \<open>
  \<open>get_async_chapters\<close>. \<open>pages book chapter bible\<close> is what the download and the parser
  give for one chapter; \<open>chapterFn\<close> builds the \<open>Chapter\<close> from it. The pool runs the
  calls for \<open>range(1, length + 1)\<close>, and \<open>as_completed\<close> hands the futures over in some
  order of completion: the argument \<open>completed\<close>, applied to the submitted chapter
  numbers. \<open>future.result()\<close> raises the exception of a failed call, which leaves the
  function; otherwise \<open>setdefault\<close> stores the chapter unless the key is there already.
\<close>

definition chapterFn ::
  "(string \<Rightarrow> int \<Rightarrow> int \<Rightarrow> py_error + elem) \<Rightarrow> Book \<Rightarrow> int \<Rightarrow> py_error + Chapter" where
  "chapterFn pages self x =
     snd (Chapter_init (b_id self) x (b_bible self) (pages (b_id self) x (b_bible self)))"

definition setdefault :: "(int \<times> Chapter) list \<Rightarrow> int \<Rightarrow> Chapter \<Rightarrow> (int \<times> Chapter) list" where
  "setdefault d k v = (case map_of d k of Some _ \<Rightarrow> d | None \<Rightarrow> d @ [(k, v)])"

fun collect_chapters ::
  "(int \<Rightarrow> py_error + Chapter) \<Rightarrow> (int \<times> Chapter) list \<Rightarrow> int list
     \<Rightarrow> py_error + (int \<times> Chapter) list" where
  "collect_chapters f chapters [] = Inr chapters"
| "collect_chapters f chapters (ch # rest) =
     (case f ch of
        Inl e \<Rightarrow> Inl e
      | Inr c \<Rightarrow> collect_chapters f (setdefault chapters ch c) rest)"

definition get_async_chapters ::
  "(string \<Rightarrow> int \<Rightarrow> int \<Rightarrow> py_error + elem) \<Rightarrow> (int list \<Rightarrow> int list) \<Rightarrow> Book
     \<Rightarrow> py_error + (int \<times> Chapter) list" where
  "get_async_chapters pages completed self =
     collect_chapters (chapterFn pages self) [] (completed [1..b_length self])"

section \<open>The XML writer\<close>

text \<open>\<open>str(n)\<close> of an integer, as an f-string renders it.\<close>

function str_nat :: "nat \<Rightarrow> string" where
  "str_nat n =
     (if n < 10 then [char_of (48 + n)] else str_nat (n div 10) @ [char_of (48 + n mod 10)])"
  by pat_completeness auto
termination
  by (relation "measure id") auto

declare str_nat.simps [simp del]

definition str_int :: "int \<Rightarrow> string" where
  "str_int i = (if i < 0 then CHR ''-'' # str_nat (nat (- i)) else str_nat (nat i))"

text \<open>
  The header that \<open>writeFile\<close> writes first. \<open>str.upper\<close>, which is applied to the
  language code, is the argument \<open>str_upper\<close>: the case mapping of the interpreter is
  taken as given.
\<close>

definition header :: "(string \<Rightarrow> string) \<Rightarrow> Bible \<Rightarrow> string" where
  \<open>header str_upper bible =
     ''<XMLBIBLE biblename="'' @ bible_name bible
       @ ''" revision="99" status="v" version="2.0.1.18" type="x-bible" p1:noNamespaceSchemaLocation="zef2005.xsd" xmlns:p1="http://www.w3.org/2001/XMLSchema-instance">\<newline>''
       @ ''<INFORMATION>\<newline>''
       @ ''<title>'' @ bible_name bible @ ''</title>\<newline>''
       @ ''<creator/>\<newline>''
       @ ''<subject/>\<newline>''
       @ ''<identifier>'' @ bible_abrev bible @ ''</identifier>\<newline>''
       @ ''<description>'' @ bible_description bible @ ''</description>\<newline>''
       @ ''<publisher>'' @ bible_author bible @ ''</publisher>\<newline>''
       @ ''<date/>\<newline>''
       @ ''<language>'' @ str_upper (bible_lang bible) @ ''</language>\<newline>''
       @ ''<type>Bible</type>\<newline>''
       @ ''</INFORMATION>\<newline>''\<close>

text \<open>The lines \<open>writeFile\<close> writes, one definition for each \<open>file.write\<close>.\<close>

definition book_open :: "nat \<Rightarrow> Book \<Rightarrow> string" where
  \<open>book_open idx book =
     replicate 2 (CHR '' '') @ ''<BIBLEBOOK bnumber="'' @ str_int (int idx) @ ''" bname="''
       @ b_name book @ ''" bsname="'' @ b_abrev book @ ''">\<newline>''\<close>

definition book_close :: string where
  \<open>book_close = replicate 2 (CHR '' '') @ ''</BIBLEBOOK>\<newline>''\<close>

definition chapter_open :: "int \<Rightarrow> string" where
  \<open>chapter_open chap =
     replicate 4 (CHR '' '') @ ''<CHAPTER cnumber="'' @ str_int chap @ ''">\<newline>''\<close>

definition chapter_close :: string where
  \<open>chapter_close = replicate 4 (CHR '' '') @ ''</CHAPTER>\<newline>''\<close>

definition vers_line :: "int \<Rightarrow> string \<Rightarrow> string" where
  \<open>vers_line verse txt =
     replicate 6 (CHR '' '') @ '' <VERS vnumber="'' @ str_int verse @ ''">'' @ txt
       @ ''</VERS>\<newline>''\<close>

text \<open>
  \<open>for verse in chapters[chapter]\<close> iterates the keys of the chapter's verses, and
  \<open>chapters[chapter][verse]\<close> reads a key that is there, which leaves the chapter as it is.
\<close>

definition write_chapter :: "int \<times> Chapter \<Rightarrow> string" where
  "write_chapter kc =
     chapter_open (fst kc)
       @ concat (map (\<lambda>verse. vers_line verse (fst (Chapter_getitem (snd kc) verse)))
                     (Chapter_iter (snd kc)))
       @ chapter_close"

text \<open>
  The loop over \<open>enumerate(bible, 1)\<close>. The opening line of a book is written first; then
  \<open>bible[book]\<close> looks the \<open>Book\<close> object up in the map of USFM strings, and the chapters
  of the book that lookup returns are fetched. The result is everything written to the
  file so far and whether the loop ended or raised. \<open>pages idx\<close> is what the site
  answers while the book numbered \<open>idx\<close> is fetched and \<open>completed idx\<close> the order of
  completion in its pool. (The progress lines printed on the console are left out.)
\<close>

fun write_books ::
  "(nat \<Rightarrow> string \<Rightarrow> int \<Rightarrow> int \<Rightarrow> py_error + elem) \<Rightarrow> (nat \<Rightarrow> int list \<Rightarrow> int list) \<Rightarrow> Bible
     \<Rightarrow> nat \<Rightarrow> Book list \<Rightarrow> string \<times> (py_error + unit)" where
  "write_books pages completed bible idx [] = ([], Inr ())"
| "write_books pages completed bible idx (book # rest) =
     (case Bible_getitem bible (BookKey book) of
        (Inl e, bible') \<Rightarrow> (book_open idx book, Inl e)
      | (Inr b, bible') \<Rightarrow>
          (case get_async_chapters (pages idx) (completed idx) b of
             Inl e \<Rightarrow> (book_open idx book, Inl e)
           | Inr chapters \<Rightarrow>
               (case write_books pages completed bible' (Suc idx) rest of
                  (txt, r) \<Rightarrow>
                    (book_open idx book @ concat (map write_chapter chapters) @ book_close
                       @ txt, r))))"

text \<open>
  \<open>writeFile(bible)\<close>: the text of \<open>Bibles/<abrev>.xml\<close> when the call returns or raises
  (the \<open>with\<close> block closes the file either way), and the outcome.
\<close>

definition writeFile ::
  "(string \<Rightarrow> string) \<Rightarrow> (nat \<Rightarrow> string \<Rightarrow> int \<Rightarrow> int \<Rightarrow> py_error + elem)
     \<Rightarrow> (nat \<Rightarrow> int list \<Rightarrow> int list) \<Rightarrow> Bible \<Rightarrow> string \<times> (py_error + unit)" where
  "writeFile str_upper pages completed bible =
     (case write_books pages completed bible 1 (Bible_iter bible) of
        (txt, Inl e) \<Rightarrow> (header str_upper bible @ txt, Inl e)
      | (txt, Inr u) \<Rightarrow> (header str_upper bible @ txt @ ''</XMLBIBLE>'', Inr u))"

section \<open>The markup unescaper\<close>

text \<open>
  \<open>decodeHtml(text)\<close> is \<open>text.encode('utf-8').decode('unicode_escape')\<close>. Here code points
  above 255 matter, so a \<open>str\<close> is a list of code points and \<open>bytes\<close> a list of numbers
  below 256.

  \<open>str.encode('utf-8')\<close>: one to four bytes for each code point; a surrogate raises
  \<open>UnicodeEncodeError\<close>.
\<close>

definition utf8_char :: "nat \<Rightarrow> py_error + nat list" where
  "utf8_char cp =
     (if cp < 0x80 then Inr [cp]
      else if cp < 0x800 then Inr [0xC0 + cp div 64, 0x80 + cp mod 64]
      else if cp < 0x10000 then
        (if 0xD800 \<le> cp \<and> cp \<le> 0xDFFF then Inl UnicodeEncodeError
         else Inr [0xE0 + cp div 4096, 0x80 + cp div 64 mod 64, 0x80 + cp mod 64])
      else if cp < 0x110000 then
        Inr [0xF0 + cp div 262144, 0x80 + cp div 4096 mod 64, 0x80 + cp div 64 mod 64,
             0x80 + cp mod 64]
      else Inl UnicodeEncodeError)"

fun utf8_encode :: "nat list \<Rightarrow> py_error + nat list" where
  "utf8_encode [] = Inr []"
| "utf8_encode (cp # cps) =
     (case utf8_char cp of
        Inl e \<Rightarrow> Inl e
      | Inr bs \<Rightarrow> (case utf8_encode cps of Inl e \<Rightarrow> Inl e | Inr rest \<Rightarrow> Inr (bs @ rest)))"

text \<open>
  \<open>bytes.decode('unicode_escape')\<close>, after the decoder of the interpreter: a byte that is
  not a backslash becomes the character with that number (Latin-1); after a backslash
  come the one-letter escapes, up to three octal digits, \<open>\x\<close>, \<open>\u\<close> and \<open>\U\<close> with
  exactly 2, 4 and 8 hexadecimal digits, \<open>\N{name}\<close>, and a backslash before a line feed,
  which is dropped. A backslash before any other byte stays, and so does the byte. A
  backslash at the end, too few or wrong hexadecimal digits, a value above \<open>0x10FFFF\<close>
  and an unknown name raise \<open>UnicodeDecodeError\<close>. The table of character names is the
  argument \<open>names\<close>.
\<close>

definition hex_digit :: "nat \<Rightarrow> nat option" where
  "hex_digit b =
     (if 48 \<le> b \<and> b \<le> 57 then Some (b - 48)
      else if 97 \<le> b \<and> b \<le> 102 then Some (b - 87)
      else if 65 \<le> b \<and> b \<le> 70 then Some (b - 55)
      else None)"

fun hex_number :: "nat \<Rightarrow> nat list \<Rightarrow> nat option" where
  "hex_number acc [] = Some acc"
| "hex_number acc (b # bs) =
     (case hex_digit b of None \<Rightarrow> None | Some d \<Rightarrow> hex_number (16 * acc + d) bs)"

definition hex_escape :: "nat \<Rightarrow> nat list \<Rightarrow> nat option" where
  "hex_escape count bs =
     (if length bs < count then None
      else case hex_number 0 (take count bs) of
             None \<Rightarrow> None
           | Some ch \<Rightarrow> if ch > 0x10FFFF then None else Some ch)"

definition is_octal :: "nat \<Rightarrow> bool" where
  "is_octal b = (48 \<le> b \<and> b \<le> 55)"

definition put :: "nat list \<Rightarrow> py_error + nat list \<Rightarrow> py_error + nat list" where
  "put out r = (case r of Inl e \<Rightarrow> Inl e | Inr rest \<Rightarrow> Inr (out @ rest))"

definition simple_escape :: "nat \<Rightarrow> nat option" where
  "simple_escape c =
     (if c = 92 then Some 92 else if c = 39 then Some 39 else if c = 34 then Some 34
      else if c = 98 then Some 8 else if c = 102 then Some 12 else if c = 116 then Some 9
      else if c = 110 then Some 10 else if c = 114 then Some 13 else if c = 118 then Some 11
      else if c = 97 then Some 7 else None)"

function unicode_escape :: "(nat list \<Rightarrow> nat option) \<Rightarrow> nat list \<Rightarrow> py_error + nat list" where
  "unicode_escape names [] = Inr []"
| "unicode_escape names (b # bs) =
     (if b \<noteq> 92 then put [b] (unicode_escape names bs)
      else case bs of
        [] \<Rightarrow> Inl UnicodeDecodeError
      | c # cs \<Rightarrow>
          if c = 10 then unicode_escape names cs
          else if simple_escape c \<noteq> None then
            put [the (simple_escape c)] (unicode_escape names cs)
          else if is_octal c then
            (if cs \<noteq> [] \<and> is_octal (hd cs) then
               (if tl cs \<noteq> [] \<and> is_octal (hd (tl cs)) then
                  put [((c - 48) * 8 + (hd cs - 48)) * 8 + (hd (tl cs) - 48)]
                      (unicode_escape names (tl (tl cs)))
                else put [(c - 48) * 8 + (hd cs - 48)] (unicode_escape names (tl cs)))
             else put [c - 48] (unicode_escape names cs))
          else if c = 120 then
            (case hex_escape 2 cs of
               None \<Rightarrow> Inl UnicodeDecodeError
             | Some ch \<Rightarrow> put [ch] (unicode_escape names (drop 2 cs)))
          else if c = 117 then
            (case hex_escape 4 cs of
               None \<Rightarrow> Inl UnicodeDecodeError
             | Some ch \<Rightarrow> put [ch] (unicode_escape names (drop 4 cs)))
          else if c = 85 then
            (case hex_escape 8 cs of
               None \<Rightarrow> Inl UnicodeDecodeError
             | Some ch \<Rightarrow> put [ch] (unicode_escape names (drop 8 cs)))
          else if c = 78 then
            (if cs \<noteq> [] \<and> hd cs = 123 then
               (let name = takeWhile (\<lambda>x. x \<noteq> 125) (tl cs);
                    after = dropWhile (\<lambda>x. x \<noteq> 125) (tl cs)
                in if after = [] \<or> name = [] then Inl UnicodeDecodeError
                   else case names name of
                          None \<Rightarrow> Inl UnicodeDecodeError
                        | Some ch \<Rightarrow> put [ch] (unicode_escape names (tl after)))
             else Inl UnicodeDecodeError)
          else put [92, c] (unicode_escape names cs))"
  by pat_completeness auto
termination
proof -
  have le: "length (dropWhile P (tl xs)) - Suc 0 < Suc (Suc (length xs))"
    for P and xs :: "nat list"
    using length_dropWhile_le [of P "tl xs"] by simp
  show ?thesis
    by (relation "measure (\<lambda>(names, bs). length bs)") (auto simp: le)
qed

declare unicode_escape.simps [simp del]

definition decodeHtml :: "(nat list \<Rightarrow> nat option) \<Rightarrow> nat list \<Rightarrow> py_error + nat list" where
  "decodeHtml names text_in =
     (case utf8_encode text_in of Inl e \<Rightarrow> Inl e | Inr bs \<Rightarrow> unicode_escape names bs)"

section \<open>Notions of the specification\<close>

text \<open>
  The specification describes the verse class in words of its own. These definitions
  follow those words, to be compared with the functions above.

  The number of verse-class tokens of a class string: the substrings matching \<open>v\d\<close>.
\<close>

fun spec_token_count :: "string \<Rightarrow> nat" where
  "spec_token_count [] = 0"
| "spec_token_count [c] = 0"
| "spec_token_count (c # d # cs) =
     (if c = CHR ''v'' \<and> is_digit d then 1 else 0) + spec_token_count (d # cs)"

text \<open>
  The digit groups of a class string: the leading \<open>verse \<close> is stripped, every \<open>v\<close> is
  removed and what is left is cut at the spaces. The value of a digit group is its
  decimal value.
\<close>

definition strip_verse_prefix :: "string \<Rightarrow> string" where
  "strip_verse_prefix c = (if prefix ''verse '' c then drop 6 c else c)"

definition digit_groups :: "string \<Rightarrow> string list" where
  "digit_groups c = split_space (filter (\<lambda>x. x \<noteq> CHR ''v'') (strip_verse_prefix c))"

definition digits_value :: "string \<Rightarrow> nat" where
  "digits_value g = foldl (\<lambda>a ch. 10 * a + digit_val ch) 0 g"

text \<open>
  The verse number of a class string by the rule of the specification: with more than
  two \<open>v\<close> the least of the integers \<open>int\<close> reads from the digit groups, otherwise the
  integer read from what follows the literal prefix \<open>verse v\<close>.
\<close>

definition spec_class_number :: "string \<Rightarrow> py_error + int" where
  "spec_class_number c =
     (if count_v c > 2 then
        (case int_all (digit_groups c) of Inl e \<Rightarrow> Inl e | Inr ns \<Rightarrow> py_min ns)
      else py_int (drop 7 c))"

text \<open>The nearest of a chain of ancestors whose class attribute starts with \<open>verse v\<close>.\<close>

definition verse_marked :: "elem \<Rightarrow> bool" where
  "verse_marked e = (case elem_class e of None \<Rightarrow> False | Some c \<Rightarrow> prefix ''verse v'' c)"

definition nearest_verse_ancestor :: "elem list \<Rightarrow> elem option" where
  "nearest_verse_ancestor up = List.find verse_marked up"

text \<open>The verse numbers given to the selected spans, in scan order, and the state left.\<close>

definition assigned_verse :: "elem \<times> elem list \<Rightarrow> py_error + int" where
  "assigned_verse l = snd (leaf_verse (snd l))"

definition verses_after :: "(elem \<times> elem list) list \<Rightarrow> (int \<times> string) list" where
  "verses_after ls =
     (case snd (chapter_loop init_state ls) of Inl e \<Rightarrow> [] | Inr st \<Rightarrow> verses st)"


section \<open>Example inputs\<close>

text \<open>
  The fragment of the specification's end-to-end scenario, under the root that the parser
  puts around two top-level elements, and its three selected spans.
\<close>

definition content_leaf :: "string \<Rightarrow> elem" where
  "content_leaf t = Elem ''span'' (Some ''content'') (Some t) []"

definition scenario_fragment :: elem where
  "scenario_fragment =
     Elem ''div'' None None
       [Elem ''span'' (Some ''verse v1'') None [content_leaf ''In'', content_leaf ''the''],
        Elem ''span'' (Some ''verse v2'') None [content_leaf ''beginning'']]"

definition scenario_leaves :: "(elem \<times> elem list) list" where
  "scenario_leaves = content_spans [] scenario_fragment"

text \<open>A leaf under a wrapper without verse class, under a span of verse 7.\<close>

definition wrapped_fragment :: elem where
  "wrapped_fragment =
     Elem ''span'' (Some ''verse v7'') None
       [Elem ''span'' (Some ''content-wrapper'') None [content_leaf ''light'']]"

text \<open>Fragments in which no ancestor of the leaf has a class that starts with \<open>verse v\<close>.\<close>

definition unmarked_fragment :: elem where
  "unmarked_fragment =
     Elem ''span'' (Some ''p'') None
       [Elem ''span'' (Some ''content-wrapper'') None [content_leaf ''light'']]"


text \<open>A range class with a token that is no verse number.\<close>

definition junk_token_fragment :: elem where
  "junk_token_fragment =
     Elem ''div'' (Some ''chapter'') None
       [Elem ''span'' (Some ''verse v12 v13 wj'') None [content_leaf ''light'']]"

text \<open>A leaf under a span of the verses 12 to 14.\<close>

definition range_fragment :: elem where
  "range_fragment =
     Elem ''span'' (Some ''verse v12 v13 v14'') None [content_leaf '' light '']"

text \<open>A catalogue with one book of one canonical chapter, and one without books.\<close>

definition one_book_data :: version_data where
  "one_book_data =
     \<lparr>local_title = ''Example'', local_abbreviation = ''EX'', publisher_name = ''Pub'',
      language_iso_639_3 = ''eng'', copyright_short_text = ''c'',
      data_books = [\<lparr>usfm = ''GEN'', human_long = ''Genesis'', abbrev = ''Gen.'',
                     chapters_canonical = [True]\<rparr>]\<rparr>"

definition no_books_data :: version_data where
  "no_books_data =
     \<lparr>local_title = ''Example'', local_abbreviation = ''EX'', publisher_name = ''Pub'',
      language_iso_639_3 = ''eng'', copyright_short_text = ''c'', data_books = []\<rparr>"

text \<open>
  The scheduler scenario of the specification: one book of five chapters, the third of
  which has a leaf without verse ancestor.
\<close>

definition five_chapter_data :: version_data where
  "five_chapter_data =
     \<lparr>local_title = ''Example'', local_abbreviation = ''EX'', publisher_name = ''Pub'',
      language_iso_639_3 = ''eng'', copyright_short_text = ''c'',
      data_books = [\<lparr>usfm = ''GEN'', human_long = ''Genesis'', abbrev = ''Gen.'',
                     chapters_canonical = [True, True, True, True, True]\<rparr>]\<rparr>"

definition third_chapter_malformed :: "nat \<Rightarrow> string \<Rightarrow> int \<Rightarrow> int \<Rightarrow> py_error + elem" where
  "third_chapter_malformed idx book chap bid =
     (if chap = 3 then Inr unmarked_fragment else Inr scenario_fragment)"

text \<open>
  The objects \<open>Bible(128)\<close> builds from the catalogue with one book and from one with
  two books, and a site that answers with a malformed chapter while the second book is
  written.
\<close>

definition one_book_bible :: Bible where
  "one_book_bible =
     \<lparr>bible_id = 128, bible_name = ''Example'', bible_abrev = ''EX'', bible_author = ''Pub'',
      bible_lang = ''eng'', bible_description = ''c'',
      books = [\<lparr>b_bible = 128, b_length = 1, b_id = ''GEN'', b_abrev = ''Gen'',
                b_name = ''Genesis''\<rparr>],
      hashMap = [(StrKey ''GEN'', 0)]\<rparr>"

definition two_book_data :: version_data where
  "two_book_data =
     \<lparr>local_title = ''Example'', local_abbreviation = ''EX'', publisher_name = ''Pub'',
      language_iso_639_3 = ''eng'', copyright_short_text = ''c'',
      data_books = [\<lparr>usfm = ''GEN'', human_long = ''Genesis'', abbrev = ''Gen.'',
                     chapters_canonical = [True]\<rparr>,
                    \<lparr>usfm = ''EXO'', human_long = ''Exodus'', abbrev = ''Exo.'',
                     chapters_canonical = [True]\<rparr>]\<rparr>"

definition two_book_bible :: Bible where
  "two_book_bible =
     \<lparr>bible_id = 128, bible_name = ''Example'', bible_abrev = ''EX'', bible_author = ''Pub'',
      bible_lang = ''eng'', bible_description = ''c'',
      books = [\<lparr>b_bible = 128, b_length = 1, b_id = ''GEN'', b_abrev = ''Gen'',
                b_name = ''Genesis''\<rparr>,
               \<lparr>b_bible = 128, b_length = 1, b_id = ''EXO'', b_abrev = ''Exo'',
                b_name = ''Exodus''\<rparr>],
      hashMap = [(StrKey ''GEN'', 0), (StrKey ''EXO'', 1)]\<rparr>"

definition fails_on_second :: "nat \<Rightarrow> string \<Rightarrow> int \<Rightarrow> int \<Rightarrow> py_error + elem" where
  "fails_on_second idx book chap bid =
     (if idx = 2 then Inr unmarked_fragment else Inr scenario_fragment)"

text \<open>A key that the map of a \<open>Bible\<close> sends to the first book: absent, or stored with 0.\<close>

definition defaults_to_first :: "Bible \<Rightarrow> key \<Rightarrow> bool" where
  "defaults_to_first B x =
     (map_of (hashMap B) x = None \<or> map_of (hashMap B) x = Some 0)"

section \<open>Facts about the string functions\<close>

lemma replace_absent: "x \<in> set old \<Longrightarrow> x \<notin> set s \<Longrightarrow> replace old new s = s"
proof (induction s)
  case Nil
  then show ?case by (auto simp: replace.simps)
next
  case (Cons c cs)
  from Cons.prems have "\<not> prefix old (c # cs)"
    using set_mono_prefix by fastforce
  moreover from Cons.prems have "old \<noteq> []" by auto
  ultimately show ?case using Cons by (simp add: replace.simps)
qed

lemma replace_char: "replace [x] [] s = filter (\<lambda>y. y \<noteq> x) s"
  by (induction s) (auto simp: replace.simps)

lemma replace_prefix: "old \<noteq> [] \<Longrightarrow> replace old new (old @ s) = new @ replace old new s"
  by (cases old) (simp_all add: replace.simps)

lemma split_space_nonempty: "split_space s \<noteq> []"
  by (induction s) (auto split: list.splits)

lemma set_split_space:
  "x \<in> set s \<Longrightarrow> x \<noteq> CHR '' '' \<Longrightarrow> \<exists>g \<in> set (split_space s). x \<in> set g"
  by (induction s) (auto split: list.splits)

lemma split_space_no_space: "CHR '' '' \<notin> set s \<Longrightarrow> split_space s = [s]"
  by (induction s) auto

lemma int_digits_all:
  "list_all is_digit ds \<Longrightarrow>
     int_digits acc ds = Some (foldl (\<lambda>a ch. 10 * a + digit_val ch) acc ds)"
  by (induction acc ds rule: int_digits.induct) auto

lemma int_digits_chars:
  "int_digits acc s = Some n \<Longrightarrow> c \<in> set s \<Longrightarrow> is_digit c \<or> c = CHR ''_''"
  by (induction acc s arbitrary: n rule: int_digits.induct) (auto split: if_splits)

lemma int_unsigned_chars:
  "int_unsigned s = Some n \<Longrightarrow> c \<in> set s \<Longrightarrow> is_digit c \<or> c = CHR ''_''"
  by (cases s) (auto simp: int_unsigned_def split: if_splits dest: int_digits_chars)

lemma set_dropWhile_or: "x \<in> set xs \<Longrightarrow> x \<in> set (dropWhile P xs) \<or> P x"
  by (induction xs) auto

lemma set_int_strip: "c \<in> set s \<Longrightarrow> c \<in> set (int_strip s) \<or> is_int_space c"
proof -
  assume "c \<in> set s"
  then have "c \<in> set (dropWhile is_int_space s) \<or> is_int_space c"
    by (rule set_dropWhile_or)
  then have "c \<in> set (dropWhile is_int_space (rev (dropWhile is_int_space s)))
               \<or> is_int_space c"
    using set_dropWhile_or [of c "rev (dropWhile is_int_space s)" is_int_space] by auto
  then show ?thesis by (simp add: int_strip_def)
qed

text \<open>What \<open>int\<close> accepts holds only white space, a sign, underscores and digits.\<close>

lemma py_int_chars:
  assumes "py_int g = Inr n" and "c \<in> set g"
  shows "is_int_space c \<or> c = CHR ''+'' \<or> c = CHR ''-'' \<or> c = CHR ''_'' \<or> is_digit c"
proof (cases "is_int_space c")
  case True
  then show ?thesis by simp
next
  case False
  then have c: "c \<in> set (int_strip g)"
    using set_int_strip [OF assms(2)] by simp
  then obtain x xs where t: "int_strip g = x # xs" by (cases "int_strip g") auto
  show ?thesis
  proof (cases "x = CHR ''+'' \<or> x = CHR ''-''")
    case True
    then obtain m where "int_unsigned xs = Some m"
      using assms(1) by (auto simp: py_int_def t Let_def split: option.splits if_splits)
    then show ?thesis
      using c t True int_unsigned_chars [of xs m c] by auto
  next
    case False
    then obtain m where "int_unsigned (x # xs) = Some m"
      using assms(1) by (auto simp: py_int_def t Let_def split: option.splits if_splits)
    then show ?thesis
      using c t int_unsigned_chars [of "x # xs" m c] by auto
  qed
qed

lemma digit_not_int_space: "is_digit c \<Longrightarrow> \<not> is_int_space c"
  by (auto simp: is_digit_def is_int_space_def)

lemma int_strip_id:
  assumes "s \<noteq> []" and "\<not> is_int_space (hd s)" and "\<not> is_int_space (last s)"
  shows "int_strip s = s"
proof -
  have "dropWhile is_int_space s = s"
    using assms by (simp add: dropWhile_eq_self_iff)
  moreover have "dropWhile is_int_space (rev s) = rev s"
    using assms by (simp add: dropWhile_eq_self_iff hd_rev)
  ultimately show ?thesis by (simp add: int_strip_def)
qed

text \<open>A string of digits within the limit is read as its decimal value.\<close>

lemma py_int_digits:
  assumes "g \<noteq> []" and "list_all is_digit g" and "length g \<le> int_max_str_digits"
  shows "py_int g = Inr (int (digits_value g))"
proof -
  obtain c cs where g: "g = c # cs" using assms(1) by (cases g) auto
  have c: "is_digit c" and cs: "list_all is_digit cs" using assms(2) g by auto
  have "is_digit (last g)" using assms by (simp add: list_all_iff)
  then have s: "int_strip g = g"
    using assms c g by (intro int_strip_id) (auto dest: digit_not_int_space)
  have ne: "c \<noteq> CHR ''+''" "c \<noteq> CHR ''-''" using c by (auto simp: is_digit_def)
  have "filter is_digit g = g"
    using assms(2) by (simp add: list_all_iff filter_id_conv)
  then have "\<not> length (filter is_digit g) > int_max_str_digits"
    using assms(3) by simp
  then have "int_unsigned g = Some (digits_value g)"
    using c cs
    by (simp add: int_unsigned_def digits_value_def int_digits_all digit_val_def g
          del: filter.simps)
  then show ?thesis using ne s by (simp add: py_int_def g Let_def)
qed

lemma int_all_digits:
  "\<forall>g \<in> set gs. g \<noteq> [] \<and> list_all is_digit g \<and> length g \<le> int_max_str_digits \<Longrightarrow>
     int_all gs = Inr (map (int \<circ> digits_value) gs)"
  by (induction gs) (auto simp: py_int_digits)

lemma int_all_Inr:
  "int_all gs = Inr ns \<Longrightarrow>
     length ns = length gs \<and> (\<forall>g \<in> set gs. \<exists>n. py_int g = Inr n)"
  by (induction gs arbitrary: ns) (auto split: sum.splits)

lemma py_min_Min:
  assumes "ns \<noteq> []"
  shows "py_min ns = Inr (Min (set ns))"
proof (cases ns)
  case Nil
  then show ?thesis using assms by simp
next
  case (Cons n ms)
  then show ?thesis using Min.set_eq_fold [of n ms] by (simp add: py_min_def)
qed

text \<open>
  When \<open>int\<close> reads every digit group, removing every \<open>verse \<close> (what the code does) and
  removing the leading one (what the specification says) leave the same string.
\<close>

lemma digit_groups_no_e:
  assumes "int_all (digit_groups c) = Inr ns"
  shows "CHR ''e'' \<notin> set (strip_verse_prefix c)"
proof
  assume "CHR ''e'' \<in> set (strip_verse_prefix c)"
  then have "CHR ''e'' \<in> set (filter (\<lambda>x. x \<noteq> CHR ''v'') (strip_verse_prefix c))"
    by simp
  then obtain g where g: "g \<in> set (digit_groups c)" "CHR ''e'' \<in> set g"
    unfolding digit_groups_def using set_split_space by blast
  then obtain n where "py_int g = Inr n"
    using int_all_Inr [OF assms] by blast
  then show False
    using py_int_chars [of g n "CHR ''e''"] g(2)
    by (simp add: is_int_space_def is_digit_def)
qed

lemma replace_verse_prefix:
  assumes "CHR ''e'' \<notin> set (strip_verse_prefix c)"
  shows "replace ''verse '' [] c = strip_verse_prefix c"
proof -
  have r: "replace ''verse '' [] (strip_verse_prefix c) = strip_verse_prefix c"
    using assms by (intro replace_absent [of "CHR ''e''"]) simp_all
  show ?thesis
  proof (cases "prefix ''verse '' c")
    case True
    then obtain zs where c: "c = ''verse '' @ zs" by (auto simp: prefix_def)
    then have z: "strip_verse_prefix c = zs" by (simp add: strip_verse_prefix_def)
    have "replace ''verse '' [] (''verse '' @ zs) = [] @ replace ''verse '' [] zs"
      by (rule replace_prefix) simp
    then show ?thesis using r z c by simp
  next
    case False
    then show ?thesis using r by (simp add: strip_verse_prefix_def)
  qed
qed

lemma findMinVerse_groups:
  assumes "int_all (digit_groups c) = Inr ns"
  shows "findMinVerse c = py_min ns" and "py_min ns = Inr (Min (set ns))"
proof -
  have "replace ''v'' [] (replace ''verse '' [] c)
          = filter (\<lambda>x. x \<noteq> CHR ''v'') (strip_verse_prefix c)"
    by (simp add: replace_verse_prefix [OF digit_groups_no_e [OF assms]] replace_char)
  then show "findMinVerse c = py_min ns"
    using assms by (simp add: findMinVerse_def digit_groups_def)
  have "length ns = length (digit_groups c)"
    using int_all_Inr [OF assms] by simp
  then have "ns \<noteq> []"
    using split_space_nonempty by (auto simp: digit_groups_def)
  then show "py_min ns = Inr (Min (set ns))" by (rule py_min_Min)
qed

lemma prefix_count_v: "prefix ''verse v'' c \<Longrightarrow> 2 \<le> count_v c"
  by (auto simp: prefix_def count_v_def)

text \<open>
  For a class that starts with \<open>verse v\<close> the code reads the verse number the rule of
  the specification gives, whenever that rule gives one.
\<close>

lemma class_verse_spec:
  assumes "prefix ''verse v'' c" and "spec_class_number c = Inr n"
  shows "class_verse c = Inr n"
proof (cases "count_v c > 2")
  case True
  then obtain ns where ns: "int_all (digit_groups c) = Inr ns" and "py_min ns = Inr n"
    using assms(2) by (auto simp: spec_class_number_def split: sum.splits)
  then show ?thesis
    using True findMinVerse_groups(1) [OF ns] by (simp add: class_verse_def)
next
  case False
  then have p: "py_int (drop 7 c) = Inr n"
    using assms(2) by (simp add: spec_class_number_def)
  obtain r where c: "c = ''verse v'' @ r"
    using assms(1) by (auto simp: prefix_def)
  then have r: "drop 7 c = r" by simp
  have "CHR ''e'' \<notin> set r"
    using py_int_chars [of r n "CHR ''e''"] p r
    by (auto simp: is_int_space_def is_digit_def)
  then have "replace ''verse v'' [] r = r"
    by (intro replace_absent [of "CHR ''e''"]) simp_all
  moreover have "replace ''verse v'' [] (''verse v'' @ r) = [] @ replace ''verse v'' [] r"
    by (rule replace_prefix) simp
  ultimately show ?thesis
    using False p r c by (simp add: class_verse_def)
qed

text \<open>In particular \<open>verse v<N>\<close> for a number \<open>N\<close> within the limit stands for \<open>N\<close>.\<close>

lemma spec_class_number_single:
  assumes "ds \<noteq> []" and "list_all is_digit ds" and "length ds \<le> int_max_str_digits"
  shows "spec_class_number (''verse v'' @ ds) = Inr (int (digits_value ds))"
proof -
  have "CHR ''v'' \<notin> set ds"
    using assms(2) by (auto simp: list_all_iff is_digit_def)
  then have "count_v (''verse v'' @ ds) = 2"
    by (simp add: count_v_def count_list_0_iff)
  then show ?thesis
    using py_int_digits [OF assms] by (simp add: spec_class_number_def)
qed

section \<open>Facts about the extraction loop\<close>

lemma chapter_step_Inr:
  "snd (chapter_step st l) = Inr st' \<longleftrightarrow>
     (\<exists>n t. assigned_verse l = Inr n \<and> elem_text (fst l) = Some t \<and>
        st' = \<lparr>verses = AList.update n
                   (verse_text (verses st) n
                      @ (if last_verse st = Some n then '' '' @ strip t else strip t))
                   (verses st),
               last_verse = Some n\<rparr>)"
  by (auto simp: chapter_step_def assigned_verse_def split: prod.splits sum.splits option.splits)


lemma chapter_loop_Cons_snd:
  "snd (chapter_loop st (l # ls)) =
     (case snd (chapter_step st l) of Inl e \<Rightarrow> Inl e | Inr st' \<Rightarrow> snd (chapter_loop st' ls))"
  by (auto split: prod.splits sum.splits)

lemma chapter_loop_append_snd:
  "snd (chapter_loop st (xs @ ys)) =
     (case snd (chapter_loop st xs) of Inl e \<Rightarrow> Inl e | Inr st' \<Rightarrow> snd (chapter_loop st' ys))"
proof (induction xs arbitrary: st)
  case Nil
  show ?case by simp
next
  case (Cons x xs)
  show ?case
    by (cases "snd (chapter_step st x)")
      (simp_all only: append_Cons chapter_loop_Cons_snd Cons.IH sum.case)
qed

lemma chapter_loop_last_verse:
  assumes "snd (chapter_loop st (xs @ [x])) = Inr st'"
  shows "\<exists>n. last_verse st' = Some n \<and> assigned_verse x = Inr n"
proof -
  obtain st1 where 1: "snd (chapter_loop st xs) = Inr st1"
    and 2: "snd (chapter_loop st1 [x]) = Inr st'"
    using assms by (auto simp: chapter_loop_append_snd split: sum.splits)
  from 2 have "snd (chapter_step st1 x) = Inr st'"
    by (simp add: chapter_loop_Cons_snd del: chapter_loop.simps(2) split: sum.splits)
  then show ?thesis by (auto simp: chapter_step_Inr)
qed


lemma verse_text_update:
  "verse_text (AList.update n v vs) m = (if m = n then v else verse_text vs m)"
  by (simp add: verse_text_def update_conv')

lemma findVerseParent_nearest:
  assumes "nearest_verse_ancestor up = Some anc"
    and "\<forall>e \<in> set (takeWhile (\<lambda>e. \<not> verse_marked e) up). elem_class e \<noteq> None"
  shows "findVerseParent up = ([], Inr anc)"
  using assms
proof (induction up)
  case Nil
  then show ?case by (simp add: nearest_verse_ancestor_def)
next
  case (Cons e up)
  show ?case
  proof (cases "verse_marked e")
    case True
    then show ?thesis
      using Cons.prems(1)
      by (auto simp: nearest_verse_ancestor_def verse_marked_def split: option.splits)
  next
    case False
    then obtain c where c: "elem_class e = Some c" "\<not> prefix ''verse v'' c"
      using Cons.prems(2) by (auto simp: verse_marked_def split: option.splits)
    have "findVerseParent up = ([], Inr anc)"
      using Cons.prems False by (intro Cons.IH) (auto simp: nearest_verse_ancestor_def)
    then show ?thesis using c by simp
  qed
qed


lemma verse_element_walk:
  assumes "elem_class parent = Some pc" and "count_v pc < 2"
    and "nearest_verse_ancestor (parent # up) = Some anc"
    and "\<forall>e \<in> set (takeWhile (\<lambda>e. \<not> verse_marked e) (parent # up)). elem_class e \<noteq> None"
  shows "verse_element (parent # up) = ([], Inr anc)"
  using assms(1,2) findVerseParent_nearest [OF assms(3,4)] by (simp add: verse_element_def)

lemma nearest_verse_ancestor_marked:
  "nearest_verse_ancestor up = Some anc \<Longrightarrow> verse_marked anc"
  by (auto simp: nearest_verse_ancestor_def find_Some_iff)

text \<open>A parent that is marked itself is taken as it is: no walk is made.\<close>

lemma verse_element_marked:
  assumes "elem_class parent = Some pc" and "prefix ''verse v'' pc"
  shows "verse_element (parent # up) = ([], Inr parent)"
    and "nearest_verse_ancestor (parent # up) = Some parent"
  using assms prefix_count_v [OF assms(2)]
  by (simp_all add: verse_element_def nearest_verse_ancestor_def verse_marked_def)


text \<open>
  After a successful run the keys of \<open>verses\<close> are the keys it started with and the
  verse numbers given to the spans: the constructor stores no other key.
\<close>

lemma chapter_loop_keys:
  "snd (chapter_loop st ls) = Inr st' \<Longrightarrow>
     fst ` set (verses st')
       = fst ` set (verses st) \<union> {n. \<exists>l \<in> set ls. assigned_verse l = Inr n}"
proof (induction ls arbitrary: st)
  case Nil
  then show ?case by simp
next
  case (Cons x xs)
  from Cons.prems obtain st1 where 1: "snd (chapter_step st x) = Inr st1"
    and 2: "snd (chapter_loop st1 xs) = Inr st'"
    by (auto simp: chapter_loop_Cons_snd simp del: chapter_loop.simps(2) split: sum.splits)
  from 1 obtain n where n: "assigned_verse x = Inr n"
    and k: "fst ` set (verses st1) = {n} \<union> fst ` set (verses st)"
    by (auto simp: chapter_step_Inr dom_update)
  show ?case
    using Cons.IH [OF 2] n k by auto
qed

section \<open>The claims about the verse extractor\<close>

text \<open>
  C1. When the extraction of a chapter succeeds, every selected span \<open>l\<close> has a verse
  number \<open>n\<close> and a text \<open>t\<close>, and processing it appends to \<open>verses[n]\<close> the stripped text,
  with one space before it exactly when there is a span right before \<open>l\<close> in scan order
  and that span was given the same verse number; every other verse is left as it was.
\<close>

theorem adjacent_same_verse_space:
  assumes "snd (chapter_loop init_state (pre @ l # post)) = Inr fin"
  shows "\<exists>n t. assigned_verse l = Inr n \<and> elem_text (fst l) = Some t \<and>
           verse_text (verses_after (pre @ [l])) n =
             verse_text (verses_after pre) n
               @ (if pre \<noteq> [] \<and> assigned_verse (last pre) = Inr n then '' '' else [])
               @ strip t \<and>
           (\<forall>m. m \<noteq> n \<longrightarrow>
              verse_text (verses_after (pre @ [l])) m = verse_text (verses_after pre) m)"
proof -
  obtain st where pre: "snd (chapter_loop init_state pre) = Inr st"
    and rest: "snd (chapter_loop st (l # post)) = Inr fin"
    using assms by (auto simp: chapter_loop_append_snd split: sum.splits)
  from rest obtain st' where step: "snd (chapter_step st l) = Inr st'"
    by (auto simp: chapter_loop_Cons_snd simp del: chapter_loop.simps(2) split: sum.splits)
  then obtain n t where n: "assigned_verse l = Inr n" and t: "elem_text (fst l) = Some t"
    and st': "st' = \<lparr>verses = AList.update n
                   (verse_text (verses st) n
                      @ (if last_verse st = Some n then '' '' @ strip t else strip t))
                   (verses st),
               last_verse = Some n\<rparr>"
    by (auto simp: chapter_step_Inr)
  have after_pre: "verses_after pre = verses st"
    by (simp add: verses_after_def pre)
  have "snd (chapter_loop init_state (pre @ [l])) = Inr st'"
    by (simp add: chapter_loop_append_snd pre chapter_loop_Cons_snd step
          del: chapter_loop.simps(2))
  then have after_l: "verses_after (pre @ [l]) = verses st'"
    by (simp add: verses_after_def)
  have last: "last_verse st = Some n \<longleftrightarrow> pre \<noteq> [] \<and> assigned_verse (last pre) = Inr n"
  proof (cases pre rule: rev_cases)
    case Nil
    then show ?thesis using pre by (auto simp: init_state_def)
  next
    case (snoc ys y)
    then show ?thesis using chapter_loop_last_verse [of init_state ys y st] pre by auto
  qed
  show ?thesis
    using n t last by (auto simp: after_pre after_l st' verse_text_update)
qed

theorem adjacent_same_verse_space_witness:
  "snd (chapter_loop init_state (take 1 scenario_leaves @ scenario_leaves ! 1 # drop 2 scenario_leaves))
     = Inr \<lparr>verses = [(1, ''In the''), (2, ''beginning'')], last_verse = Some 2\<rparr>
   \<and> assigned_verse (last (take 1 scenario_leaves)) = Inr 1
   \<and> verse_text (verses_after (take 1 scenario_leaves)) 1 = ''In''
   \<and> (\<exists>n t. assigned_verse (scenario_leaves ! 1) = Inr n
          \<and> elem_text (fst (scenario_leaves ! 1)) = Some t \<and>
          verse_text (verses_after (take 1 scenario_leaves @ [scenario_leaves ! 1])) n =
            verse_text (verses_after (take 1 scenario_leaves)) n
              @ (if take 1 scenario_leaves \<noteq> []
                    \<and> assigned_verse (last (take 1 scenario_leaves)) = Inr n
                 then '' '' else [])
              @ strip t \<and>
          (\<forall>m. m \<noteq> n \<longrightarrow>
             verse_text (verses_after (take 1 scenario_leaves @ [scenario_leaves ! 1])) m =
               verse_text (verses_after (take 1 scenario_leaves)) m))"
proof -
  have h: "snd (chapter_loop init_state
                 (take 1 scenario_leaves @ scenario_leaves ! 1 # drop 2 scenario_leaves))
             = Inr \<lparr>verses = [(1, ''In the''), (2, ''beginning'')], last_verse = Some 2\<rparr>"
    by code_simp
  have a: "assigned_verse (last (take 1 scenario_leaves)) = Inr 1"
    by code_simp
  have b: "verse_text (verses_after (take 1 scenario_leaves)) 1 = ''In''"
    by code_simp
  show ?thesis
    using adjacent_same_verse_space [OF h] h a b by blast
qed


text \<open>
  C2, as the claim states it, fails: more than two \<open>v\<close> in the class do not make every
  group a number. In \<open>verse v12 v13 wj\<close> the group \<open>wj\<close> is left, in \<open>verse v12  v13\<close>
  (two spaces) an empty group; \<open>int\<close> raises \<open>ValueError\<close> on either, no verse is
  assigned and no chapter is built.
\<close>

theorem range_class_counterexample:
  "count_v ''verse v12 v13 wj'' > 2
   \<and> digit_groups ''verse v12 v13 wj'' = [''12'', ''13'', ''wj'']
   \<and> class_verse ''verse v12 v13 wj'' = Inl ValueError
   \<and> content_spans [] junk_token_fragment
       = [(content_leaf ''light'',
           [Elem ''span'' (Some ''verse v12 v13 wj'') None [content_leaf ''light''],
            junk_token_fragment])]
   \<and> assigned_verse (content_leaf ''light'',
        [Elem ''span'' (Some ''verse v12 v13 wj'') None [content_leaf ''light''],
         junk_token_fragment]) = Inl ValueError
   \<and> Chapter_init ''GEN'' 1 128 (Inr junk_token_fragment) = ([], Inl ValueError)
   \<and> count_v ''verse v12  v13'' > 2
   \<and> digit_groups ''verse v12  v13'' = [''12'', [], ''13'']
   \<and> class_verse ''verse v12  v13'' = Inl ValueError"
  by code_simp

text \<open>
  C2, amended. For a selected span with text: when the class string of the element
  that carries the span's verse has more than two \<open>v\<close> and \<open>int\<close> reads every digit
  group (what is left between the spaces once the leading \<open>verse \<close> and every \<open>v\<close> are
  gone) as an integer, the span is given the least of these integers, and its stripped
  text is appended to \<open>verses\<close> under that number. So the leaf under
  \<open>verse v12 v13 v14\<close> goes to verse 12.
\<close>

theorem range_class_min_verse:
  assumes "verse_element up = (out, Inr q)" and "elem_class q = Some c"
    and "count_v c > 2"
    and "int_all (digit_groups c) = Inr ns"
    and "elem_text i = Some t"
  shows "class_verse c = Inr (Min (set ns))
       \<and> assigned_verse (i, up) = Inr (Min (set ns))
       \<and> snd (chapter_step st (i, up))
           = Inr \<lparr>verses = AList.update (Min (set ns))
                     (verse_text (verses st) (Min (set ns))
                        @ (if last_verse st = Some (Min (set ns)) then '' '' @ strip t
                           else strip t))
                     (verses st),
                  last_verse = Some (Min (set ns))\<rparr>"
proof -
  have c: "class_verse c = Inr (Min (set ns))"
    using assms(3) findMinVerse_groups [OF assms(4)] by (simp add: class_verse_def)
  then have a: "assigned_verse (i, up) = Inr (Min (set ns))"
    using assms(1,2) by (simp add: leaf_verse_def assigned_verse_def)
  show ?thesis
    using c a assms(5) by (simp add: chapter_step_Inr)
qed

theorem range_class_min_verse_witness:
  "content_spans [] range_fragment = [(content_leaf '' light '', [range_fragment])]
   \<and> verse_element [range_fragment] = ([], Inr range_fragment)
   \<and> elem_class range_fragment = Some ''verse v12 v13 v14''
   \<and> count_v ''verse v12 v13 v14'' > 2
   \<and> digit_groups ''verse v12 v13 v14'' = [''12'', ''13'', ''14'']
   \<and> int_all (digit_groups ''verse v12 v13 v14'') = Inr [12, 13, 14]
   \<and> class_verse ''verse v12 v13 v14'' = Inr 12
   \<and> assigned_verse (content_leaf '' light '', [range_fragment]) = Inr 12
   \<and> snd (chapter_step init_state (content_leaf '' light '', [range_fragment]))
       = Inr \<lparr>verses = [(12, ''light'')], last_verse = Some 12\<rparr>
   \<and> Chapter_init ''GEN'' 1 128 (Inr range_fragment)
       = ([], Inr \<lparr>ch_book = ''GEN'', ch_chapter = 1, ch_bible = 128,
                   ch_verses = [(12, ''light'')]\<rparr>)"
proof -
  have s: "content_spans [] range_fragment = [(content_leaf '' light '', [range_fragment])]"
    by code_simp
  have 1: "verse_element [range_fragment] = ([], Inr range_fragment)" by code_simp
  have 2: "elem_class range_fragment = Some ''verse v12 v13 v14''"
    by (simp add: range_fragment_def)
  have 3: "count_v ''verse v12 v13 v14'' > 2" by code_simp
  have g: "digit_groups ''verse v12 v13 v14'' = [''12'', ''13'', ''14'']" by code_simp
  have 4: "int_all (digit_groups ''verse v12 v13 v14'') = Inr [12, 13, 14]" by code_simp
  have 5: "elem_text (content_leaf '' light '') = Some '' light ''"
    by (simp add: content_leaf_def)
  have m: "Min (set [12, 13, 14 :: int]) = 12" by simp
  have u: "AList.update 12 (verse_text (verses init_state) 12
              @ (if last_verse init_state = Some 12 then '' '' @ strip '' light ''
                 else strip '' light '')) (verses init_state) = [(12 :: int, ''light'')]"
    by code_simp
  have k: "Chapter_init ''GEN'' 1 128 (Inr range_fragment)
       = ([], Inr \<lparr>ch_book = ''GEN'', ch_chapter = 1, ch_bible = 128,
                   ch_verses = [(12, ''light'')]\<rparr>)"
    by code_simp
  have "class_verse ''verse v12 v13 v14'' = Inr 12
       \<and> assigned_verse (content_leaf '' light '', [range_fragment]) = Inr 12
       \<and> snd (chapter_step init_state (content_leaf '' light '', [range_fragment]))
           = Inr \<lparr>verses = [(12, ''light'')], last_verse = Some 12\<rparr>"
    using range_class_min_verse [OF 1 2 3 4 5, of init_state] u unfolding m by simp
  then show ?thesis
    using s 1 2 3 g 4 k by simp
qed

text \<open>
  C3, as the claim states it, fails in three ways. The walk starts when the parent's
  class has fewer than two letters \<open>v\<close>, not when it has at most one token \<open>v\d\<close>: a
  parent of class \<open>overview\<close> has no such token and two \<open>v\<close>, so its own class is read as
  the number, which raises, although the grandparent is marked \<open>verse v7\<close>. The walk
  reads the class attribute of every element on the way: under a parent of class \<open>wj\<close>
  and a grandparent without class attribute the walk raises before it reaches the
  element marked \<open>verse v7\<close> above. And the class of the ancestor found has to read as
  a number: under a parent of class \<open>content-wrapper\<close> and a grandparent of class
  \<open>verse v7 wj\<close>, which starts with \<open>verse v\<close>, \<open>int\<close> raises.
\<close>

theorem token_count_walk_counterexample:
  "spec_token_count ''overview'' \<le> 1
   \<and> nearest_verse_ancestor
        [Elem ''span'' (Some ''overview'') None [], Elem ''span'' (Some ''verse v7'') None []]
       = Some (Elem ''span'' (Some ''verse v7'') None [])
   \<and> class_verse ''verse v7'' = Inr 7
   \<and> assigned_verse (content_leaf ''light'',
        [Elem ''span'' (Some ''overview'') None [], Elem ''span'' (Some ''verse v7'') None []])
       = Inl ValueError
   \<and> spec_token_count ''wj'' \<le> 1
   \<and> nearest_verse_ancestor
        [Elem ''span'' (Some ''wj'') None [], Elem ''span'' None None [],
         Elem ''span'' (Some ''verse v7'') None []]
       = Some (Elem ''span'' (Some ''verse v7'') None [])
   \<and> assigned_verse (content_leaf ''light'',
        [Elem ''span'' (Some ''wj'') None [], Elem ''span'' None None [],
         Elem ''span'' (Some ''verse v7'') None []])
       = Inl AttributeError
   \<and> spec_token_count ''content-wrapper'' \<le> 1
   \<and> nearest_verse_ancestor
        [Elem ''span'' (Some ''content-wrapper'') None [],
         Elem ''span'' (Some ''verse v7 wj'') None []]
       = Some (Elem ''span'' (Some ''verse v7 wj'') None [])
   \<and> assigned_verse (content_leaf ''light'',
        [Elem ''span'' (Some ''content-wrapper'') None [],
         Elem ''span'' (Some ''verse v7 wj'') None []])
       = Inl ValueError"
  by code_simp

text \<open>
  C3, amended. For a selected span with text whose parent's class has fewer than two
  letters \<open>v\<close> or starts with \<open>verse v\<close>: when every element from the parent up to the
  nearest ancestor whose class starts with \<open>verse v\<close> (the parent itself, if it is
  marked so) has a class attribute, and the class of that ancestor gives the verse
  number \<open>n\<close> by the rule of the specification (the least of the integers of its digit
  groups when it has more than two \<open>v\<close>, the integer after \<open>verse v\<close> otherwise), the
  span is given the verse number \<open>n\<close>, and its stripped text is appended to \<open>verses[n]\<close>.
\<close>

theorem ancestor_walk_verse:
  assumes "elem_class parent = Some pc"
    and "count_v pc < 2 \<or> prefix ''verse v'' pc"
    and "nearest_verse_ancestor (parent # up) = Some anc"
    and "\<forall>e \<in> set (takeWhile (\<lambda>e. \<not> verse_marked e) (parent # up)). elem_class e \<noteq> None"
    and "elem_class anc = Some ac" and "spec_class_number ac = Inr n"
    and "elem_text i = Some t"
  shows "assigned_verse (i, parent # up) = Inr n
       \<and> snd (chapter_step st (i, parent # up))
           = Inr \<lparr>verses = AList.update n
                     (verse_text (verses st) n
                        @ (if last_verse st = Some n then '' '' @ strip t else strip t))
                     (verses st),
                  last_verse = Some n\<rparr>"
proof -
  have e: "verse_element (parent # up) = ([], Inr anc)"
  proof (cases "prefix ''verse v'' pc")
    case True
    then show ?thesis
      using verse_element_marked [OF assms(1) True, of up] assms(3) by simp
  next
    case False
    then have "count_v pc < 2" using assms(2) by simp
    with assms(1) show ?thesis
      using assms(3,4) by (rule verse_element_walk)
  qed
  have "prefix ''verse v'' ac"
    using nearest_verse_ancestor_marked [OF assms(3)] assms(5) by (simp add: verse_marked_def)
  then have "class_verse ac = Inr n"
    using assms(6) by (rule class_verse_spec)
  then have a: "assigned_verse (i, parent # up) = Inr n"
    using e assms(5) by (simp add: assigned_verse_def leaf_verse_def)
  then show ?thesis
    using assms(7) by (simp add: chapter_step_Inr)
qed

theorem ancestor_walk_verse_witness:
  "content_spans [] wrapped_fragment
     = [(content_leaf ''light'',
         [Elem ''span'' (Some ''content-wrapper'') None [content_leaf ''light''],
          wrapped_fragment])]
   \<and> count_v ''content-wrapper'' < 2
   \<and> nearest_verse_ancestor
        [Elem ''span'' (Some ''content-wrapper'') None [content_leaf ''light''],
         wrapped_fragment] = Some wrapped_fragment
   \<and> list_all (\<lambda>e. elem_class e \<noteq> None)
        (takeWhile (\<lambda>e. \<not> verse_marked e)
           [Elem ''span'' (Some ''content-wrapper'') None [content_leaf ''light''],
            wrapped_fragment])
   \<and> elem_class wrapped_fragment = Some ''verse v7''
   \<and> spec_class_number ''verse v7'' = Inr 7
   \<and> assigned_verse (content_leaf ''light'',
        [Elem ''span'' (Some ''content-wrapper'') None [content_leaf ''light''],
         wrapped_fragment]) = Inr 7
   \<and> snd (chapter_step init_state (content_leaf ''light'',
        [Elem ''span'' (Some ''content-wrapper'') None [content_leaf ''light''],
         wrapped_fragment]))
       = Inr \<lparr>verses = [(7, ''light'')], last_verse = Some 7\<rparr>
   \<and> prefix ''verse v'' ''verse v7''
   \<and> nearest_verse_ancestor [Elem ''span'' (Some ''verse v7'') None [content_leaf ''light'']]
       = Some (Elem ''span'' (Some ''verse v7'') None [content_leaf ''light''])
   \<and> assigned_verse (content_leaf ''light'',
        [Elem ''span'' (Some ''verse v7'') None [content_leaf ''light'']]) = Inr 7
   \<and> snd (chapter_step init_state (content_leaf ''light'',
        [Elem ''span'' (Some ''verse v7'') None [content_leaf ''light'']]))
       = Inr \<lparr>verses = [(7, ''light'')], last_verse = Some 7\<rparr>"
proof -
  let ?parent = "Elem ''span'' (Some ''content-wrapper'') None [content_leaf ''light'']"
  let ?direct = "Elem ''span'' (Some ''verse v7'') None [content_leaf ''light'']"
  have s: "content_spans [] wrapped_fragment
             = [(content_leaf ''light'', [?parent, wrapped_fragment])]"
    by code_simp
  have 1: "elem_class ?parent = Some ''content-wrapper''" by simp
  have c: "count_v ''content-wrapper'' < 2" by code_simp
  then have 2: "count_v ''content-wrapper'' < 2 \<or> prefix ''verse v'' ''content-wrapper''"
    by simp
  have 3: "nearest_verse_ancestor (?parent # [wrapped_fragment]) = Some wrapped_fragment"
    by code_simp
  have 4: "\<forall>e \<in> set (takeWhile (\<lambda>e. \<not> verse_marked e) (?parent # [wrapped_fragment])).
             elem_class e \<noteq> None"
    by (simp add: verse_marked_def wrapped_fragment_def)
  then have l: "list_all (\<lambda>e. elem_class e \<noteq> None)
                  (takeWhile (\<lambda>e. \<not> verse_marked e) [?parent, wrapped_fragment])"
    by (simp only: list_all_iff)
  have 5: "elem_class wrapped_fragment = Some ''verse v7''"
    by (simp add: wrapped_fragment_def)
  have 6: "spec_class_number ''verse v7'' = Inr 7" by code_simp
  have 7: "elem_text (content_leaf ''light'') = Some ''light''"
    by (simp add: content_leaf_def)
  have u: "AList.update 7 (verse_text (verses init_state) 7
              @ (if last_verse init_state = Some 7 then '' '' @ strip ''light''
                 else strip ''light'')) (verses init_state) = [(7 :: int, ''light'')]"
    by code_simp
  have d1: "elem_class ?direct = Some ''verse v7''" by simp
  have p: "prefix ''verse v'' ''verse v7''" by simp
  then have d2: "count_v ''verse v7'' < 2 \<or> prefix ''verse v'' ''verse v7''" by simp
  have d3: "nearest_verse_ancestor (?direct # []) = Some ?direct" by code_simp
  have d4: "\<forall>e \<in> set (takeWhile (\<lambda>e. \<not> verse_marked e) (?direct # [])). elem_class e \<noteq> None"
    by (simp add: verse_marked_def)
  have walk: "assigned_verse (content_leaf ''light'', [?parent, wrapped_fragment]) = Inr 7
       \<and> snd (chapter_step init_state (content_leaf ''light'', [?parent, wrapped_fragment]))
           = Inr \<lparr>verses = [(7, ''light'')], last_verse = Some 7\<rparr>"
    using ancestor_walk_verse [OF 1 2 3 4 5 6 7, of init_state] u by simp
  have direct: "assigned_verse (content_leaf ''light'', [?direct]) = Inr 7
       \<and> snd (chapter_step init_state (content_leaf ''light'', [?direct]))
           = Inr \<lparr>verses = [(7, ''light'')], last_verse = Some 7\<rparr>"
    using ancestor_walk_verse [OF d1 d2 d3 d4 d1 6 7, of init_state] u by simp
  show ?thesis
    using s c 3 l 5 6 walk p d3 direct by simp
qed




section \<open>Facts about the catalogue and the scheduler\<close>

lemma Book_init_given:
  "Book_init fetched book_id name_book bid (Some n) (Some a)
     = Inr \<lparr>b_bible = bid, b_length = n, b_id = book_id, b_abrev = replace ''.'' [] a,
            b_name = name_book\<rparr>"
  by (simp add: Book_init_def)

lemma init_books_result:
  "\<exists>bs' hm'. init_books fetched bid bs hm es = Inr (bs', hm')
      \<and> length bs' = length bs + length es
      \<and> fst ` set hm' = fst ` set hm \<union> (\<lambda>i. StrKey (usfm i)) ` set es"
proof (induction es arbitrary: bs hm)
  case Nil
  show ?case by simp
next
  case (Cons i es)
  let ?b = "\<lparr>b_bible = bid, b_length = int (length (filter id (chapters_canonical i))),
             b_id = usfm i, b_abrev = replace ''.'' [] (abbrev i), b_name = human_long i\<rparr>"
  obtain bs' hm' where r:
    "init_books fetched bid (bs @ [?b]) (AList.update (StrKey (usfm i)) (length bs) hm) es
       = Inr (bs', hm')"
    "length bs' = length (bs @ [?b]) + length es"
    "fst ` set hm' = fst ` set (AList.update (StrKey (usfm i)) (length bs) hm)
                      \<union> (\<lambda>i. StrKey (usfm i)) ` set es"
    using Cons.IH [of "bs @ [?b]" "AList.update (StrKey (usfm i)) (length bs) hm"] by blast
  show ?case
    using r by (simp add: Book_init_given dom_update)
qed

lemma Bible_init_result:
  assumes "Bible_init (Inr data) bid = Inr bible"
  shows "length (books bible) = length (data_books data)"
    and "fst ` set (hashMap bible) = (\<lambda>i. StrKey (usfm i)) ` set (data_books data)"
proof -
  obtain bs hm where r: "init_books (Inr data) bid [] [] (data_books data) = Inr (bs, hm)"
    "length bs = length ([] :: Book list) + length (data_books data)"
    "fst ` set hm = fst ` set ([] :: (key \<times> nat) list)
                     \<union> (\<lambda>i. StrKey (usfm i)) ` set (data_books data)"
    using init_books_result [of "Inr data" bid "[]" "[]" "data_books data"] by blast
  then have b: "books bible = bs" "hashMap bible = hm"
    using assms by (auto simp: Bible_init_def)
  show "length (books bible) = length (data_books data)"
    using r(2) b by simp
  show "fst ` set (hashMap bible) = (\<lambda>i. StrKey (usfm i)) ` set (data_books data)"
    using r(3) b by simp
qed

lemma get_book_books: "books (snd (get_book B y)) = books B"
  by (simp add: get_book_def hashMap_getitem_def split: option.splits)

lemma get_book_keeps:
  "defaults_to_first B x \<Longrightarrow> defaults_to_first (snd (get_book B y)) x"
  by (auto simp: defaults_to_first_def get_book_def hashMap_getitem_def map_add_def
           split: option.splits)

lemma get_book_first:
  "defaults_to_first B x \<Longrightarrow> books B \<noteq> [] \<Longrightarrow> fst (get_book B x) = Inr (hd (books B))"
  by (auto simp: defaults_to_first_def get_book_def hashMap_getitem_def hd_conv_nth
           split: option.splits)

lemma lookups_keeps:
  "defaults_to_first B x \<Longrightarrow>
     defaults_to_first (lookups B ks) x \<and> books (lookups B ks) = books B"
  by (induction ks arbitrary: B) (simp_all add: get_book_keeps get_book_books)

lemma collect_chapters_fails:
  "k \<in> set ks \<Longrightarrow> f k = Inl e \<Longrightarrow> \<exists>e'. collect_chapters f acc ks = Inl e'"
proof (induction ks arbitrary: acc)
  case Nil
  then show ?case by simp
next
  case (Cons x xs)
  show ?case
  proof (cases "f x")
    case (Inl a)
    then show ?thesis by simp
  next
    case (Inr c)
    with Cons.prems have "k \<in> set xs" by auto
    then show ?thesis using Cons.IH Cons.prems(2) Inr by simp
  qed
qed

lemma write_books_fails:
  assumes "\<forall>b. defaults_to_first B (BookKey b)" and "books B \<noteq> []"
    and "\<forall>j < length pre. \<exists>chs.
           get_async_chapters (pages (idx + j)) (completed (idx + j)) (hd (books B)) = Inr chs"
    and "get_async_chapters (pages (idx + length pre)) (completed (idx + length pre))
           (hd (books B)) = Inl e"
  shows "\<exists>txt. write_books pages completed B idx (pre @ book # rest)
                 = (txt @ book_open (idx + length pre) book, Inl e)"
  using assms
proof (induction pre arbitrary: B idx)
  case Nil
  have "Bible_getitem B (BookKey book) = (Inr (hd (books B)), snd (get_book B (BookKey book)))"
    using get_book_first [of B "BookKey book"] Nil.prems(1,2)
    by (simp add: Bible_getitem_def prod_eq_iff)
  then show ?case using Nil.prems(4) by simp
next
  case (Cons p pre)
  let ?B = "snd (get_book B (BookKey p))"
  have g: "Bible_getitem B (BookKey p) = (Inr (hd (books B)), ?B)"
    using get_book_first [of B "BookKey p"] Cons.prems(1,2)
    by (simp add: Bible_getitem_def prod_eq_iff)
  obtain chs where chs:
    "get_async_chapters (pages idx) (completed idx) (hd (books B)) = Inr chs"
    using Cons.prems(3) by fastforce
  have b: "books ?B = books B" by (rule get_book_books)
  have "\<exists>txt. write_books pages completed ?B (Suc idx) (pre @ book # rest)
                = (txt @ book_open (Suc idx + length pre) book, Inl e)"
  proof (rule Cons.IH)
    show "\<forall>b. defaults_to_first ?B (BookKey b)"
      using Cons.prems(1) by (simp add: get_book_keeps)
    show "books ?B \<noteq> []" using Cons.prems(2) b by simp
    show "\<forall>j < length pre. \<exists>chs.
            get_async_chapters (pages (Suc idx + j)) (completed (Suc idx + j)) (hd (books ?B))
              = Inr chs"
      using Cons.prems(3) b by fastforce
    show "get_async_chapters (pages (Suc idx + length pre)) (completed (Suc idx + length pre))
            (hd (books ?B)) = Inl e"
      using Cons.prems(4) b by simp
  qed
  then obtain w where
    "write_books pages completed ?B (Suc idx) (pre @ book # rest)
       = (w @ book_open (Suc idx + length pre) book, Inl e)"
    by blast
  then have "write_books pages completed B idx ((p # pre) @ book # rest)
      = ((book_open idx p @ concat (map write_chapter chs) @ book_close @ w)
           @ book_open (idx + length (p # pre)) book, Inl e)"
    using g chs by simp
  then show ?case by blast
qed

section \<open>The claims about scheduler, catalogue, writer and unescaper\<close>

text \<open>
  C5, as the claim states it, fails in its last part: \<open>writeFile\<close> writes the opening
  \<open>BIBLEBOOK\<close> line of a book before it asks the scheduler for the chapters. In the
  scheduler scenario (five chapters, the third malformed) the scheduler raises and
  returns no map, and the file holds the header and that opening line.
\<close>

theorem partial_book_counterexample:
  \<open>\<forall>str_upper.
     case Bible_init (Inr five_chapter_data) 128 of
       Inl e \<Rightarrow> False
     | Inr bible \<Rightarrow>
         get_async_chapters (third_chapter_malformed 1) (\<lambda>xs. xs) (hd (books bible))
           = Inl AttributeError
         \<and> writeFile str_upper third_chapter_malformed (\<lambda>idx xs. xs) bible
           = (header str_upper bible
                @ ''  <BIBLEBOOK bnumber="1" bname="Genesis" bsname="Gen">\<newline>'',
              Inl AttributeError)\<close>
proof -
  have \<open>case Bible_init (Inr five_chapter_data) 128 of
       Inl e \<Rightarrow> False
     | Inr bible \<Rightarrow>
         get_async_chapters (third_chapter_malformed 1) (\<lambda>xs. xs) (hd (books bible))
           = Inl AttributeError
         \<and> write_books third_chapter_malformed (\<lambda>idx xs. xs) bible 1 (Bible_iter bible)
           = (''  <BIBLEBOOK bnumber="1" bname="Genesis" bsname="Gen">\<newline>'',
              Inl AttributeError)\<close>
    by code_simp
  then show ?thesis
    by (simp add: writeFile_def split: sum.splits)
qed

text \<open>
  C5, amended. While the book numbered \<open>length pre + 1\<close> is written, \<open>bible[book]\<close> is
  the first book of the list (a \<open>Book\<close> object is no key of the map, which then answers
  0). If the construction of one of the chapters the scheduler is given for it fails,
  the scheduler raises and returns no map, and \<open>writeFile\<close> raises the same exception;
  the file then ends with the opening \<open>BIBLEBOOK\<close> line of that book: none of its
  chapters or verses, its closing line and the closing \<open>XMLBIBLE\<close> are not written.
\<close>

theorem chapter_failure_aborts_book:
  assumes "Bible_init (Inr data) bid = Inr bible"
    and "books bible = pre @ book # rest"
    and "\<forall>j < length pre. \<exists>chs.
           get_async_chapters (pages (Suc j)) (completed (Suc j)) (hd (books bible)) = Inr chs"
    and "k \<in> set (completed (Suc (length pre)) [1..b_length (hd (books bible))])"
    and "chapterFn (pages (Suc (length pre))) (hd (books bible)) k = Inl e"
  shows "\<exists>e' w.
           get_async_chapters (pages (Suc (length pre))) (completed (Suc (length pre)))
               (hd (books bible)) = Inl e'
           \<and> writeFile str_upper pages completed bible
               = (header str_upper bible @ w @ book_open (Suc (length pre)) book, Inl e')"
proof -
  obtain e' where e':
    "get_async_chapters (pages (Suc (length pre))) (completed (Suc (length pre)))
       (hd (books bible)) = Inl e'"
    using collect_chapters_fails
            [of k "completed (Suc (length pre)) [1..b_length (hd (books bible))]"
                "chapterFn (pages (Suc (length pre))) (hd (books bible))" e "[]"]
          assms(4,5)
    by (auto simp: get_async_chapters_def)
  have keys: "fst ` set (hashMap bible) = (\<lambda>i. StrKey (usfm i)) ` set (data_books data)"
    using assms(1) by (rule Bible_init_result(2))
  have inv: "\<forall>b. defaults_to_first bible (BookKey b)"
  proof
    fix b
    have "BookKey b \<notin> fst ` set (hashMap bible)" using keys by auto
    then show "defaults_to_first bible (BookKey b)"
      by (simp add: defaults_to_first_def map_of_eq_None_iff)
  qed
  have ne: "books bible \<noteq> []" using assms(2) by simp
  obtain w where
    "write_books pages completed bible 1 (pre @ book # rest)
       = (w @ book_open (1 + length pre) book, Inl e')"
    using write_books_fails [OF inv ne, of pre pages 1 completed e' book rest] assms(3) e'
    by auto
  then have "writeFile str_upper pages completed bible
               = (header str_upper bible @ w @ book_open (Suc (length pre)) book, Inl e')"
    using assms(2) by (simp add: writeFile_def Bible_iter_def)
  with e' show ?thesis by blast
qed

theorem chapter_failure_aborts_book_witness:
  "Bible_init (Inr two_book_data) 128 = Inr two_book_bible
   \<and> books two_book_bible = [hd (books two_book_bible)] @ books two_book_bible ! 1 # []
   \<and> (case get_async_chapters (fails_on_second 1) rev (hd (books two_book_bible)) of
         Inl e \<Rightarrow> False | Inr chs \<Rightarrow> True)
   \<and> 1 \<in> set (rev [1..b_length (hd (books two_book_bible))])
   \<and> chapterFn (fails_on_second 2) (hd (books two_book_bible)) 1 = Inl AttributeError
   \<and> (\<forall>str_upper. \<exists>e' w.
         get_async_chapters (fails_on_second 2) rev (hd (books two_book_bible)) = Inl e'
         \<and> writeFile str_upper fails_on_second (\<lambda>idx. rev) two_book_bible
             = (header str_upper two_book_bible @ w
                  @ book_open 2 (books two_book_bible ! 1), Inl e'))"
proof -
  have 1: "Bible_init (Inr two_book_data) 128 = Inr two_book_bible"
    by code_simp
  have 2: "books two_book_bible = [hd (books two_book_bible)] @ books two_book_bible ! 1 # []"
    by code_simp
  have a: "case get_async_chapters (fails_on_second 1) rev (hd (books two_book_bible)) of
          Inl e \<Rightarrow> False | Inr chs \<Rightarrow> True"
    by code_simp
  then have "\<exists>chs. get_async_chapters (fails_on_second (Suc 0)) rev (hd (books two_book_bible))
                = Inr chs"
    by (simp split: sum.splits)
  then have 3: "\<forall>j < length [hd (books two_book_bible)]. \<exists>chs.
         get_async_chapters (fails_on_second (Suc j)) ((\<lambda>idx. rev) (Suc j))
           (hd (books two_book_bible)) = Inr chs"
    by simp
  have b: "1 \<in> set (rev [1..b_length (hd (books two_book_bible))])"
    by code_simp
  then have 4: "1 \<in> set ((\<lambda>idx. rev) (Suc (length [hd (books two_book_bible)]))
                      [1..b_length (hd (books two_book_bible))])"
    by simp
  have c: "chapterFn (fails_on_second 2) (hd (books two_book_bible)) 1 = Inl AttributeError"
    by code_simp
  have n: "Suc (length [hd (books two_book_bible)]) = 2" by simp
  have 5: "chapterFn (fails_on_second (Suc (length [hd (books two_book_bible)])))
        (hd (books two_book_bible)) 1 = Inl AttributeError"
    unfolding n by (rule c)
  have "\<exists>e' w.
         get_async_chapters (fails_on_second 2) rev (hd (books two_book_bible)) = Inl e'
         \<and> writeFile str_upper fails_on_second (\<lambda>idx. rev) two_book_bible
             = (header str_upper two_book_bible @ w
                  @ book_open 2 (books two_book_bible ! 1), Inl e')" for str_upper
    using chapter_failure_aborts_book [OF 1 2 3 4 5, of str_upper] unfolding n by simp
  then show ?thesis
    using 1 2 a b c by simp
qed

text \<open>
  C6. The code breaks the invariant: \<open>verses\<close> is a \<open>defaultdict(str)\<close>, so indexing a
  verse number that no span was given stores that number as a key with empty text. In
  the chapter of the end-to-end scenario the spans are given the verses 1, 1 and 2;
  after \<open>chapter[3]\<close> (or \<open>get_verse(3)\<close>) iteration yields 3 as well and \<open>len\<close> is 3.
\<close>

theorem getitem_inserts_key:
  "case snd (Chapter_init ''GEN'' 1 128 (Inr scenario_fragment)) of
      Inl e \<Rightarrow> False
    | Inr ch \<Rightarrow>
        map assigned_verse scenario_leaves = [Inr 1, Inr 1, Inr 2]
        \<and> Chapter_iter ch = [1, 2]
        \<and> Chapter_len ch = 2
        \<and> Chapter_getitem ch 3
            = ('''', ch\<lparr>ch_verses := [(1, ''In the''), (2, ''beginning''), (3, '''')]\<rparr>)
        \<and> Chapter_iter (snd (Chapter_getitem ch 3)) = [1, 2, 3]
        \<and> Chapter_len (snd (get_verse ch (Some 3))) = 3"
  by code_simp

text \<open>
  C7. The code does not read the result as UTF-8: every byte of the UTF-8 encoding that
  is not part of an escape becomes one character. The text \<open>G\<close>, U+00E9, \<open>nesis\<close> comes
  out as \<open>G\<close>, U+00C3, U+00A9, \<open>nesis\<close>, whatever the table of names; the escapes
  themselves are resolved (the escapes of U+003C and U+003E around \<open>p\<close> give \<open><p>\<close>).
\<close>

theorem decodeHtml_non_ascii:
  "decodeHtml names [71, 233, 110, 101, 115, 105, 115]
     = Inr [71, 195, 169, 110, 101, 115, 105, 115]
   \<and> decodeHtml names [92, 117, 48, 48, 51, 99, 112, 92, 117, 48, 48, 51, 101]
     = Inr [60, 112, 62]"
  by (simp add: decodeHtml_def utf8_char_def unicode_escape.simps put_def simple_escape_def
        is_octal_def hex_escape_def hex_digit_def)

text \<open>
  C8. The fallback of \<open>Book.__init__\<close> never gives a book: the filter reads \<open>self.id\<close>
  before it is assigned, which raises \<open>AttributeError\<close> at the first book of the fetched
  catalogue; with an empty catalogue \<open>next\<close> raises \<open>StopIteration\<close>, and a failed fetch
  raises its own exception.
\<close>

theorem Book_init_without_length_raises:
  "Book_init fetched book_id name_book bid None abrev
     = Inl (case fetched of
              Inl e \<Rightarrow> e
            | Inr data \<Rightarrow> if data_books data = [] then StopIteration else AttributeError)"
proof (cases fetched)
  case (Inl e)
  then show ?thesis by (simp add: Book_init_def)
next
  case (Inr data)
  then show ?thesis
    by (cases "data_books data") (simp_all add: Book_init_def getattr_def)
qed

text \<open>
  C9. The \<open>VERS\<close> lines are written with seven spaces, not six: six from \<open>' '*6\<close> and one
  more at the start of the f-string. The file written for the catalogue with one book,
  whose chapter is the end-to-end scenario:
\<close>

theorem vers_indent_seven:
  \<open>Bible_init (Inr one_book_data) 128 = Inr one_book_bible
   \<and> writeFile str_upper (\<lambda>idx book chap bid. Inr scenario_fragment) (\<lambda>idx xs. xs)
        one_book_bible
     = (header str_upper one_book_bible
          @ ''  <BIBLEBOOK bnumber="1" bname="Genesis" bsname="Gen">\<newline>''
          @ ''    <CHAPTER cnumber="1">\<newline>''
          @ ''       <VERS vnumber="1">In the</VERS>\<newline>''
          @ ''       <VERS vnumber="2">beginning</VERS>\<newline>''
          @ ''    </CHAPTER>\<newline>''
          @ ''  </BIBLEBOOK>\<newline>''
          @ ''</XMLBIBLE>'', Inr ())
   \<and> vers_line 1 ''In the'' = replicate 7 (CHR '' '') @ ''<VERS vnumber="1">In the</VERS>\<newline>''\<close>
proof -
  have b: "Bible_init (Inr one_book_data) 128 = Inr one_book_bible"
    by code_simp
  have w: \<open>write_books (\<lambda>idx book chap bid. Inr scenario_fragment) (\<lambda>idx xs. xs)
             one_book_bible 1 (Bible_iter one_book_bible)
     = (''  <BIBLEBOOK bnumber="1" bname="Genesis" bsname="Gen">\<newline>''
          @ ''    <CHAPTER cnumber="1">\<newline>''
          @ ''       <VERS vnumber="1">In the</VERS>\<newline>''
          @ ''       <VERS vnumber="2">beginning</VERS>\<newline>''
          @ ''    </CHAPTER>\<newline>''
          @ ''  </BIBLEBOOK>\<newline>'', Inr ())\<close>
    by code_simp
  have v: \<open>vers_line 1 ''In the''
             = replicate 7 (CHR '' '') @ ''<VERS vnumber="1">In the</VERS>\<newline>''\<close>
    by code_simp
  have \<open>writeFile str_upper (\<lambda>idx book chap bid. Inr scenario_fragment) (\<lambda>idx xs. xs)
        one_book_bible
     = (header str_upper one_book_bible
          @ (''  <BIBLEBOOK bnumber="1" bname="Genesis" bsname="Gen">\<newline>''
          @ ''    <CHAPTER cnumber="1">\<newline>''
          @ ''       <VERS vnumber="1">In the</VERS>\<newline>''
          @ ''       <VERS vnumber="2">beginning</VERS>\<newline>''
          @ ''    </CHAPTER>\<newline>''
          @ ''  </BIBLEBOOK>\<newline>'')
          @ ''</XMLBIBLE>'', Inr ())\<close>
    unfolding writeFile_def w by simp
  then show ?thesis
    using b v by simp
qed

text \<open>
  C10, as the claim states it, fails for a version without books: the map answers 0
  and \<open>books[0]\<close> raises \<open>IndexError\<close>, a lookup error.
\<close>

theorem get_book_no_books_counterexample:
  "case Bible_init (Inr no_books_data) 128 of
      Inl e \<Rightarrow> False
    | Inr bible \<Rightarrow>
        ''GEN'' \<notin> set (map usfm (data_books no_books_data))
        \<and> fst (get_book bible (StrKey ''GEN'')) = Inl IndexError
        \<and> fst (Bible_getitem bible (StrKey ''GEN'')) = Inl IndexError"
  by code_simp

text \<open>
  C10, amended. For a \<open>Bible\<close> built from a catalogue with at least one book, after any
  sequence of lookups, \<open>get_book\<close> and \<open>bible[key]\<close> with a string that is not the USFM
  code of one of its books return the first book of the list.
\<close>

theorem unknown_code_first_book:
  assumes "Bible_init (Inr data) bid = Inr bible"
    and "data_books data \<noteq> []"
    and "code \<notin> usfm ` set (data_books data)"
  shows "fst (get_book (lookups bible ks) (StrKey code)) = Inr (hd (books bible))
       \<and> fst (Bible_getitem (lookups bible ks) (StrKey code)) = Inr (hd (books bible))"
proof -
  have "fst ` set (hashMap bible) = (\<lambda>i. StrKey (usfm i)) ` set (data_books data)"
    using assms(1) by (rule Bible_init_result(2))
  then have "StrKey code \<notin> fst ` set (hashMap bible)"
    using assms(3) by auto
  then have "defaults_to_first bible (StrKey code)"
    by (simp add: defaults_to_first_def map_of_eq_None_iff)
  then have inv: "defaults_to_first (lookups bible ks) (StrKey code)"
    and b: "books (lookups bible ks) = books bible"
    using lookups_keeps [of bible "StrKey code" ks] by simp_all
  have "length (books bible) = length (data_books data)"
    using assms(1) by (rule Bible_init_result(1))
  then have "books (lookups bible ks) \<noteq> []"
    using assms(2) b by auto
  then show ?thesis
    using get_book_first [OF inv] b by (simp add: Bible_getitem_def)
qed

theorem unknown_code_first_book_witness:
  "Bible_init (Inr two_book_data) 128 = Inr two_book_bible
   \<and> data_books two_book_data \<noteq> []
   \<and> ''LEV'' \<notin> usfm ` set (data_books two_book_data)
   \<and> fst (get_book (lookups two_book_bible [StrKey ''EXO'', StrKey ''LEV''])
            (StrKey ''LEV'')) = Inr (hd (books two_book_bible))
   \<and> fst (Bible_getitem (lookups two_book_bible [StrKey ''EXO'', StrKey ''LEV''])
            (StrKey ''LEV'')) = Inr (hd (books two_book_bible))
   \<and> b_id (hd (books two_book_bible)) = ''GEN''"
proof -
  have 1: "Bible_init (Inr two_book_data) 128 = Inr two_book_bible"
    by code_simp
  have 2: "data_books two_book_data \<noteq> []"
    by (simp add: two_book_data_def)
  have 3: "''LEV'' \<notin> usfm ` set (data_books two_book_data)"
    by (simp add: two_book_data_def)
  have 4: "b_id (hd (books two_book_bible)) = ''GEN''"
    by (simp add: two_book_bible_def)
  show ?thesis
    using unknown_code_first_book [OF 1 2 3, of "[StrKey ''EXO'', StrKey ''LEV'']"] 1 2 3 4
    by simp
qed

end
